theory Spec2Isabelle
  imports Complex_Main
begin

section \<open>Orders of the food-ordering backend: data model\<close>

text \<open>
  The development embeds \<^verbatim>\<open>src/api/crud/order.py\<close>. The ORM classes
  (\<^verbatim>\<open>api.models\<close>), the request and response schemas (\<^verbatim>\<open>api.schemas.order\<close>),
  the role enumeration and the error classes are imported by that module and declared
  elsewhere; they are rendered here with the fields and variants the module reads and writes.
\<close>

subsection \<open>Errors\<close>

datatype error =
    NotFoundError string
  | InvalidArgumentError string
  | UnauthorizedError string
  | InternalServerError string

subsection \<open>Decimal numbers\<close>

text \<open>
  A finite Python \<^verbatim>\<open>Decimal\<close>: a signed coefficient and an exponent of ten. Addition
  aligns both operands to the smaller exponent and adds the coefficients, which is what
  \<^verbatim>\<open>Decimal.__add__\<close> returns whenever the result fits the precision of the arithmetic
  context (28 significant digits by default); prices that need more digits are outside this
  model, as are the column types of the price fields, which are taken to hold decimals.
\<close>

record decimal =
  coeff :: int
  expo :: int

definition Decimal :: "int \<Rightarrow> decimal" where
  "Decimal n = \<lparr>coeff = n, expo = 0\<rparr>"

definition dec_add :: "decimal \<Rightarrow> decimal \<Rightarrow> decimal" where
  "dec_add a b =
     (let e = min (expo a) (expo b)
      in \<lparr>coeff = coeff a * 10 ^ nat (expo a - e) + coeff b * 10 ^ nat (expo b - e),
          expo = e\<rparr>)"

definition dec_val :: "decimal \<Rightarrow> rat" where
  "dec_val d =
     (if 0 \<le> expo d then of_int (coeff d) * 10 ^ nat (expo d)
      else of_int (coeff d) / 10 ^ nat (- expo d))"

subsection \<open>Enumerations and tagged unions\<close>

datatype Role = CUSTOMER | MERCHANT

datatype OrderStatusFlag = ORDERED | PREPARING | READY | SETTLED | CANCELLED

datatype OrderCancelledBy = BY_CUSTOMER | BY_MERCHANT

datatype OrderStatusUpdate =
    CancelledOrderUpdate "string option"
  | PreparingOrderUpdate
  | ReadyOrderUpdate
  | SettledOrderUpdate

datatype OrderStatus =
    OrderedOrderSchema
  | CancelledOrderSchema OrderCancelledBy int "string option"
  | PreparingOrderSchema int
  | ReadyOrderSchema int
  | SettledOrderSchema int

subsection \<open>Rows\<close>

record Restaurant =
  r_id :: int
  r_merchant_id :: int

record Menu =
  m_id :: int
  m_restaurant_id :: int
  m_price :: decimal

record Customization =
  c_id :: int
  c_menu_id :: int
  c_required :: bool
  c_unique :: bool

record Option =
  o_id :: int
  o_customization_id :: int
  o_extra_price :: "decimal option"

record Order =
  ord_id :: int
  ord_customer_id :: int
  ord_restaurant_id :: int
  ord_ordered_at :: int
  ord_price_paid :: decimal
  ord_status :: OrderStatusFlag

record OrderItem =
  oi_id :: int
  oi_order_id :: int
  oi_menu_id :: int
  oi_quantity :: int
  oi_extra_requests :: "string option"

record OrderOption =
  oo_order_item_id :: int
  oo_option_id :: int

record CancelledOrder =
  co_order_id :: int
  co_cancelled_time :: int
  co_cancelled_by :: OrderCancelledBy
  co_reason :: "string option"

record PreparingOrder =
  po_order_id :: int
  po_prepared_at :: int

record ReadyOrder =
  ro_order_id :: int
  ro_ready_at :: int

record SettledOrder =
  so_order_id :: int
  so_settled_at :: int

subsection \<open>Request payloads\<close>

record OrderOptionCreate =
  ooc_option_id :: int

record OrderItemCreate =
  oic_menu_id :: int
  oic_quantity :: int
  oic_extra_requests :: "string option"
  oic_options :: "OrderOptionCreate list"

record OrderCreate =
  oc_restaurant_id :: int
  oc_items :: "OrderItemCreate list"

subsection \<open>The record store\<close>

text \<open>
  The state is the content of the tables as the session of one request sees it: a list of
  rows per table, in insertion order. A row handed to \<^verbatim>\<open>session.add\<close> is appended to its
  table, since every later query of the session sees it; \<^verbatim>\<open>flush\<close>, \<^verbatim>\<open>commit\<close> and
  \<^verbatim>\<open>refresh\<close> do not change what the session sees and have no counterpart here.
  \<^verbatim>\<open>query(...).filter(p).first()\<close> is the first row satisfying \<open>p\<close>, \<^verbatim>\<open>.all()\<close> the
  rows satisfying it.
\<close>

record State =
  restaurants :: "Restaurant list"
  menus :: "Menu list"
  customizations :: "Customization list"
  options :: "Option list"
  orders :: "Order list"
  order_items :: "OrderItem list"
  order_options :: "OrderOption list"
  cancelled_orders :: "CancelledOrder list"
  preparing_orders :: "PreparingOrder list"
  ready_orders :: "ReadyOrder list"
  settled_orders :: "SettledOrder list"

text \<open>
  The primary key the database generates for an inserted row: one more than the largest key
  of the table (and 1 for an empty table). No row is ever deleted by this module.
\<close>

definition fresh_id :: "int list \<Rightarrow> int" where
  "fresh_id ids = fold max ids 0 + 1"

subsection \<open>Rendering integers in messages\<close>

text \<open>The text an f-string puts in place of an integer field: \<^verbatim>\<open>str(n)\<close>.\<close>

function str_nat :: "nat \<Rightarrow> string" where
  "str_nat n =
     (if n < 10 then [char_of (48 + n)]
      else str_nat (n div 10) @ [char_of (48 + n mod 10)])"
  by pat_completeness auto
termination
  by (relation "measure id") auto

declare str_nat.simps [simp del]

definition str_int :: "int \<Rightarrow> string" where
  "str_int i = (if i < 0 then CHR ''-'' # str_nat (nat (- i)) else str_nat (nat i))"

section \<open>The order status machine\<close>

text \<open>\<^verbatim>\<open>__get_order_with_validation\<close>: the order is resolved, then the actor is checked.\<close>

definition get_order_with_validation :: "State \<Rightarrow> int \<Rightarrow> Role \<Rightarrow> int \<Rightarrow> error + Order" where
  "get_order_with_validation state user_id role order_id =
     (case find (\<lambda>ord. ord_id ord = order_id) (orders state) of
        None \<Rightarrow> Inl (NotFoundError ''order with id {order_id} not found'')
      | Some ord \<Rightarrow>
          (case role of
             CUSTOMER \<Rightarrow>
               if ord_customer_id ord \<noteq> user_id
               then Inl (UnauthorizedError ''customer does not own the order'')
               else Inr ord
           | MERCHANT \<Rightarrow>
               (case find (\<lambda>r. r_merchant_id r = user_id \<and> r_id r = ord_restaurant_id ord)
                       (restaurants state) of
                  None \<Rightarrow> Inl (UnauthorizedError ''merchant does not own the order'')
                | Some _ \<Rightarrow> Inr ord)))"

text \<open>\<^verbatim>\<open>__get_status_no_validation\<close>: the satellite row of the order's status flag.\<close>

definition get_status_no_validation :: "State \<Rightarrow> Order \<Rightarrow> error + OrderStatus" where
  "get_status_no_validation state ord =
     (case ord_status ord of
        ORDERED \<Rightarrow> Inr OrderedOrderSchema
      | CANCELLED \<Rightarrow>
          (case find (\<lambda>c. co_order_id c = ord_id ord) (cancelled_orders state) of
             None \<Rightarrow> Inl (InternalServerError ''can't find the cancelled order'')
           | Some c \<Rightarrow>
               Inr (CancelledOrderSchema (co_cancelled_by c) (co_cancelled_time c) (co_reason c)))
      | PREPARING \<Rightarrow>
          (case find (\<lambda>p. po_order_id p = ord_id ord) (preparing_orders state) of
             None \<Rightarrow> Inl (InternalServerError ''can't find the preparing order'')
           | Some p \<Rightarrow> Inr (PreparingOrderSchema (po_prepared_at p)))
      | READY \<Rightarrow>
          (case find (\<lambda>r. ro_order_id r = ord_id ord) (ready_orders state) of
             None \<Rightarrow> Inl (InternalServerError ''can't find the ready order'')
           | Some r \<Rightarrow> Inr (ReadyOrderSchema (ro_ready_at r)))
      | SETTLED \<Rightarrow>
          (case find (\<lambda>x. so_order_id x = ord_id ord) (settled_orders state) of
             None \<Rightarrow> Inl (InternalServerError ''can't find the settled order'')
           | Some x \<Rightarrow> Inr (SettledOrderSchema (so_settled_at x))))"

definition get_order_status :: "State \<Rightarrow> int \<Rightarrow> Role \<Rightarrow> int \<Rightarrow> error + OrderStatus" where
  "get_order_status state user_id role order_id =
     (case get_order_with_validation state user_id role order_id of
        Inl e \<Rightarrow> Inl e
      | Inr ord \<Rightarrow> get_status_no_validation state ord)"

text \<open>
  \<^verbatim>\<open>order.status = ...\<close> assigns to the row object that the query of
  \<^verbatim>\<open>__get_order_with_validation\<close> returned, the first row with the given id.
\<close>

fun set_status :: "int \<Rightarrow> OrderStatusFlag \<Rightarrow> Order list \<Rightarrow> Order list" where
  "set_status order_id flag [] = []"
| "set_status order_id flag (ord # rest) =
     (if ord_id ord = order_id then ord\<lparr>ord_status := flag\<rparr> # rest
      else ord # set_status order_id flag rest)"

definition cancel_order :: "State \<Rightarrow> Order \<Rightarrow> int \<Rightarrow> OrderCancelledBy \<Rightarrow> string option \<Rightarrow> State" where
  "cancel_order state ord now by reason =
     state\<lparr>cancelled_orders := cancelled_orders state @
              [\<lparr>co_order_id = ord_id ord, co_cancelled_time = now,
                co_cancelled_by = by, co_reason = reason\<rparr>],
           orders := set_status (ord_id ord) CANCELLED (orders state)\<rparr>"

definition settle_order :: "State \<Rightarrow> Order \<Rightarrow> int \<Rightarrow> State" where
  "settle_order state ord now =
     state\<lparr>settled_orders := settled_orders state @
              [\<lparr>so_order_id = ord_id ord, so_settled_at = now\<rparr>],
           orders := set_status (ord_id ord) SETTLED (orders state)\<rparr>"

definition prepare_order :: "State \<Rightarrow> Order \<Rightarrow> int \<Rightarrow> State" where
  "prepare_order state ord now =
     state\<lparr>preparing_orders := preparing_orders state @
              [\<lparr>po_order_id = ord_id ord, po_prepared_at = now\<rparr>],
           orders := set_status (ord_id ord) PREPARING (orders state)\<rparr>"

definition ready_order :: "State \<Rightarrow> Order \<Rightarrow> int \<Rightarrow> State" where
  "ready_order state ord now =
     state\<lparr>ready_orders := ready_orders state @
              [\<lparr>ro_order_id = ord_id ord, ro_ready_at = now\<rparr>],
           orders := set_status (ord_id ord) READY (orders state)\<rparr>"

text \<open>
  The \<^verbatim>\<open>match role, order.status, status\<close> of \<^verbatim>\<open>update_order_status\<close>, case by case in
  the order of the source; \<open>now\<close> is the value of \<^verbatim>\<open>int(time.time())\<close>.
\<close>

fun transition :: "State \<Rightarrow> Order \<Rightarrow> int \<Rightarrow> Role \<Rightarrow> OrderStatusFlag \<Rightarrow> OrderStatusUpdate
    \<Rightarrow> (error + unit) \<times> State" where
  "transition state ord now CUSTOMER ORDERED (CancelledOrderUpdate reason) =
     (Inr (), cancel_order state ord now BY_CUSTOMER reason)"
| "transition state ord now CUSTOMER READY SettledOrderUpdate =
     (Inr (), settle_order state ord now)"
| "transition state ord now CUSTOMER _ (CancelledOrderUpdate reason) =
     (Inl (InvalidArgumentError ''order can't be cancelled anymore''), state)"
| "transition state ord now CUSTOMER _ SettledOrderUpdate =
     (Inl (InvalidArgumentError ''order can only be settled when it's ready''), state)"
| "transition state ord now CUSTOMER _ _ =
     (Inl (InvalidArgumentError ''only cancellation or settled are allowed''), state)"
| "transition state ord now MERCHANT ORDERED PreparingOrderUpdate =
     (Inr (), prepare_order state ord now)"
| "transition state ord now MERCHANT _ PreparingOrderUpdate =
     (Inl (InvalidArgumentError ''order can be prepared only once''), state)"
| "transition state ord now MERCHANT PREPARING ReadyOrderUpdate =
     (Inr (), ready_order state ord now)"
| "transition state ord now MERCHANT _ ReadyOrderUpdate =
     (Inl (InvalidArgumentError ''order can be ready after it's prepared''), state)"
| "transition state ord now MERCHANT PREPARING (CancelledOrderUpdate reason) =
     (Inr (), cancel_order state ord now BY_MERCHANT reason)"
| "transition state ord now MERCHANT ORDERED (CancelledOrderUpdate reason) =
     (Inr (), cancel_order state ord now BY_MERCHANT reason)"
| "transition state ord now MERCHANT _ (CancelledOrderUpdate reason) =
     (Inl (InvalidArgumentError ''order can't be cancelled anymore''), state)"
| "transition state ord now MERCHANT _ SettledOrderUpdate =
     (Inl (InvalidArgumentError ''order can't be settled by merchant''), state)"

definition update_order_status ::
    "State \<Rightarrow> int \<Rightarrow> Role \<Rightarrow> int \<Rightarrow> OrderStatusUpdate \<Rightarrow> int \<Rightarrow> (error + unit) \<times> State" where
  "update_order_status state user_id role order_id status now =
     (case get_order_with_validation state user_id role order_id of
        Inl e \<Rightarrow> (Inl e, state)
      | Inr ord \<Rightarrow> transition state ord now role (ord_status ord) status)"

section \<open>Order creation\<close>

text \<open>
  Modelled from the spec: \<^verbatim>\<open>get_restaurant\<close> lives in \<^verbatim>\<open>api.crud.restaurant\<close>, which
  is not part of the sources at hand. The specification gives its interface as
  \<^verbatim>\<open>get_restaurant(id) -> Restaurant | NotFoundError\<close>: a lookup by id that only reads.
  The text of its message is not specified.
\<close>

definition get_restaurant :: "State \<Rightarrow> int \<Rightarrow> error + Restaurant" where
  "get_restaurant state restaurant_id =
     (case find (\<lambda>r. r_id r = restaurant_id) (restaurants state) of
        None \<Rightarrow> Inl (NotFoundError ''restaurant not found'')
      | Some r \<Rightarrow> Inr r)"

text \<open>
  The joint query for an option and its customization: the first pair of rows with
  \<^verbatim>\<open>Option.id == option_id\<close> and \<^verbatim>\<open>Customization.id == Option.customization_id\<close>.
\<close>

definition query_option :: "State \<Rightarrow> int \<Rightarrow> (Option \<times> Customization) option" where
  "query_option state option_id =
     find (\<lambda>(opt, cust). o_id opt = option_id \<and> c_id cust = o_customization_id opt)
       (List.product (options state) (customizations state))"

text \<open>
  The inner loop over \<^verbatim>\<open>order.options\<close>. It carries \<^verbatim>\<open>seen_customizations\<close> and the
  running \<^verbatim>\<open>price_paid\<close>.
\<close>

fun check_options ::
    "State \<Rightarrow> Menu \<Rightarrow> OrderOptionCreate list \<Rightarrow> int list \<Rightarrow> decimal
      \<Rightarrow> error + (int list \<times> decimal)" where
  "check_options state menu [] seen_customizations price_paid =
     Inr (seen_customizations, price_paid)"
| "check_options state menu (option_create # rest) seen_customizations price_paid =
     (let option_id = ooc_option_id option_create in
      case query_option state option_id of
        None \<Rightarrow>
          Inl (NotFoundError (''the option with id '' @ str_int option_id @ '' not found''))
      | Some (opt, customization) \<Rightarrow>
          if c_menu_id customization \<noteq> m_id menu
          then Inl (InvalidArgumentError
                 (''the option with id '' @ str_int option_id @
                  '' is not in menu with id '' @ str_int (m_id menu)))
          else check_options state menu rest (seen_customizations @ [c_id customization])
                 (case o_extra_price opt of
                    None \<Rightarrow> price_paid
                  | Some extra_price \<Rightarrow> dec_add price_paid extra_price))"

text \<open>The loop over the required customizations of the menu.\<close>

fun check_required :: "Menu \<Rightarrow> int list \<Rightarrow> Customization list \<Rightarrow> error + unit" where
  "check_required menu seen_customizations [] = Inr ()"
| "check_required menu seen_customizations (required_customization # rest) =
     (if c_id required_customization \<notin> set seen_customizations
      then Inl (InvalidArgumentError
             (''menu with id '' @ str_int (m_id menu) @
              '' requires customization with id '' @ str_int (c_id required_customization)))
      else check_required menu seen_customizations rest)"

text \<open>The loop over the unique customizations of the menu.\<close>

fun check_unique :: "Menu \<Rightarrow> int list \<Rightarrow> Customization list \<Rightarrow> error + unit" where
  "check_unique menu seen_customizations [] = Inr ()"
| "check_unique menu seen_customizations (unique_customization # rest) =
     (if count_list seen_customizations (c_id unique_customization) > 1
      then Inl (InvalidArgumentError
             (''menu with id '' @ str_int (m_id menu) @
              '' requires customization with id '' @ str_int (c_id unique_customization) @
              '' to be unique''))
      else check_unique menu seen_customizations rest)"

text \<open>
  The body of the loop over \<^verbatim>\<open>payload.items\<close>: the checks of one line item, which
  return the running total with the item's prices added. The message for a missing menu
  is not an f-string in the source, so its braces are literal.
\<close>

definition validate_item ::
    "State \<Rightarrow> Restaurant \<Rightarrow> decimal \<Rightarrow> OrderItemCreate \<Rightarrow> error + decimal" where
  "validate_item state restaurant price_paid ord =
     (case find (\<lambda>m. m_id m = oic_menu_id ord) (menus state) of
        None \<Rightarrow> Inl (NotFoundError ''menu with id {order.menu_id} not found'')
      | Some menu \<Rightarrow>
          if m_restaurant_id menu \<noteq> r_id restaurant
          then Inl (InvalidArgumentError
                 (''menu with id '' @ str_int (oic_menu_id ord) @
                  '' is not in restaurant with id '' @ str_int (r_id restaurant)))
          else if oic_quantity ord < 1
          then Inl (InvalidArgumentError
                 (''menu with id '' @ str_int (oic_menu_id ord) @
                  '' must have a quantity of at least 1''))
          else
            (case check_options state menu (oic_options ord) []
                    (dec_add price_paid (m_price menu)) of
               Inl e \<Rightarrow> Inl e
             | Inr (seen_customizations, price_paid') \<Rightarrow>
                 (case check_required menu seen_customizations
                         (filter (\<lambda>c. c_menu_id c = m_id menu \<and> c_required c)
                            (customizations state)) of
                    Inl e \<Rightarrow> Inl e
                  | Inr _ \<Rightarrow>
                      (case check_unique menu seen_customizations
                              (filter (\<lambda>c. c_menu_id c = m_id menu \<and> c_unique c)
                                 (customizations state)) of
                         Inl e \<Rightarrow> Inl e
                       | Inr _ \<Rightarrow> Inr price_paid'))))"

fun validate_items ::
    "State \<Rightarrow> Restaurant \<Rightarrow> decimal \<Rightarrow> OrderItemCreate list \<Rightarrow> error + decimal" where
  "validate_items state restaurant price_paid [] = Inr price_paid"
| "validate_items state restaurant price_paid (ord # rest) =
     (case validate_item state restaurant price_paid ord of
        Inl e \<Rightarrow> Inl e
      | Inr price_paid' \<Rightarrow> validate_items state restaurant price_paid' rest)"

text \<open>The writes: one \<^verbatim>\<open>OrderOption\<close> row per selected option of an item.\<close>

fun persist_options :: "State \<Rightarrow> int \<Rightarrow> OrderOptionCreate list \<Rightarrow> State" where
  "persist_options state order_item_id [] = state"
| "persist_options state order_item_id (opt # rest) =
     persist_options
       (state\<lparr>order_options := order_options state @
                 [\<lparr>oo_order_item_id = order_item_id, oo_option_id = ooc_option_id opt\<rparr>]\<rparr>)
       order_item_id rest"

text \<open>One \<^verbatim>\<open>OrderItem\<close> row per line item, followed by the rows of its options.\<close>

fun persist_items :: "State \<Rightarrow> int \<Rightarrow> OrderItemCreate list \<Rightarrow> State" where
  "persist_items state order_id [] = state"
| "persist_items state order_id (ord # rest) =
     (let order_item_id = fresh_id (map oi_id (order_items state));
          state1 = state\<lparr>order_items := order_items state @
                     [\<lparr>oi_id = order_item_id, oi_order_id = order_id,
                       oi_menu_id = oic_menu_id ord, oi_quantity = oic_quantity ord,
                       oi_extra_requests = oic_extra_requests ord\<rparr>]\<rparr>
      in persist_items (persist_options state1 order_item_id (oic_options ord)) order_id rest)"

text \<open>
  \<^verbatim>\<open>create_order\<close>; \<open>ordered_at\<close> is the value of \<^verbatim>\<open>int(time.time())\<close>. The result
  pairs what the call returns or raises with the state it leaves behind.
\<close>

definition create_order :: "State \<Rightarrow> int \<Rightarrow> OrderCreate \<Rightarrow> int \<Rightarrow> (error + int) \<times> State" where
  "create_order state customer_id payload ordered_at =
     (case get_restaurant state (oc_restaurant_id payload) of
        Inl e \<Rightarrow> (Inl e, state)
      | Inr restaurant \<Rightarrow>
          (case validate_items state restaurant (Decimal 0) (oc_items payload) of
             Inl e \<Rightarrow> (Inl e, state)
           | Inr price_paid \<Rightarrow>
               (let order_id = fresh_id (map ord_id (orders state));
                    state1 = state\<lparr>orders := orders state @
                               [\<lparr>ord_id = order_id, ord_customer_id = customer_id,
                                 ord_restaurant_id = r_id restaurant,
                                 ord_ordered_at = ordered_at, ord_price_paid = price_paid,
                                 ord_status = ORDERED\<rparr>]\<rparr>
                in (Inr order_id, persist_items state1 order_id (oc_items payload)))))"

section \<open>Sequences of calls\<close>

text \<open>
  The two operations that write are called one after the other on the same store. A request
  records the arguments of one call, \<open>handle\<close> keeps the state the call leaves behind,
  whether it returned or raised, and \<open>run\<close> does so for a list of requests.
\<close>

datatype Request =
    CreateOrderRequest int OrderCreate int
  | UpdateStatusRequest int Role int OrderStatusUpdate int

fun handle :: "State \<Rightarrow> Request \<Rightarrow> State" where
  "handle state (CreateOrderRequest customer_id payload ordered_at) =
     snd (create_order state customer_id payload ordered_at)"
| "handle state (UpdateStatusRequest user_id role order_id status now) =
     snd (update_order_status state user_id role order_id status now)"

definition run :: "State \<Rightarrow> Request list \<Rightarrow> State" where
  "run state requests = foldl handle state requests"

text \<open>A store in which no order has been placed yet; the catalogue tables are arbitrary.\<close>

definition no_orders :: "State \<Rightarrow> bool" where
  "no_orders state \<longleftrightarrow>
     orders state = [] \<and> cancelled_orders state = [] \<and> preparing_orders state = [] \<and>
     ready_orders state = [] \<and> settled_orders state = []"

section \<open>Notions of the specification\<close>

subsection \<open>Validity of a payload\<close>

text \<open>
  The customization ids of the options a line item selects, in the order of selection, as
  the store joins options to customizations.
\<close>

definition resolved_customizations :: "State \<Rightarrow> OrderOptionCreate list \<Rightarrow> int list" where
  "resolved_customizations state opts =
     List.map_filter
       (\<lambda>oc. map_option (\<lambda>(opt, cust). c_id cust) (query_option state (ooc_option_id oc)))
       opts"

definition selected_customizations :: "State \<Rightarrow> OrderItemCreate \<Rightarrow> int list" where
  "selected_customizations state ord = resolved_customizations state (oic_options ord)"

text \<open>Every selected option exists and belongs to a customization of the menu.\<close>

definition options_ok :: "State \<Rightarrow> Menu \<Rightarrow> OrderOptionCreate list \<Rightarrow> bool" where
  "options_ok state menu opts \<longleftrightarrow>
     (\<forall>oc \<in> set opts.
        case query_option state (ooc_option_id oc) of
          None \<Rightarrow> False
        | Some (opt, cust) \<Rightarrow> c_menu_id cust = m_id menu)"

text \<open>
  A line item violates one of the rules: its menu is missing or belongs to another
  restaurant, its quantity is below one, a selected option is missing or belongs to another
  menu, a required customization of the menu has no selected option, or a unique
  customization of the menu has more than one.
\<close>

definition item_invalid :: "State \<Rightarrow> Restaurant \<Rightarrow> OrderItemCreate \<Rightarrow> bool" where
  "item_invalid state restaurant ord \<longleftrightarrow>
     (case find (\<lambda>m. m_id m = oic_menu_id ord) (menus state) of
        None \<Rightarrow> True
      | Some menu \<Rightarrow>
          m_restaurant_id menu \<noteq> r_id restaurant \<or>
          oic_quantity ord < 1 \<or>
          \<not> options_ok state menu (oic_options ord) \<or>
          (\<exists>c \<in> set (customizations state).
             c_menu_id c = m_id menu \<and> c_required c \<and>
             c_id c \<notin> set (selected_customizations state ord)) \<or>
          (\<exists>c \<in> set (customizations state).
             c_menu_id c = m_id menu \<and> c_unique c \<and>
             count_list (selected_customizations state ord) (c_id c) > 1))"

definition payload_invalid :: "State \<Rightarrow> OrderCreate \<Rightarrow> bool" where
  "payload_invalid state payload \<longleftrightarrow>
     (case get_restaurant state (oc_restaurant_id payload) of
        Inl _ \<Rightarrow> True
      | Inr restaurant \<Rightarrow> \<exists>ord \<in> set (oc_items payload). item_invalid state restaurant ord)"

text \<open>
  The first required customization of the menu, in table order, none of whose options is
  selected by the line item; and the first unique customization of the menu of which the line
  item selects more than one option.
\<close>

definition first_missing_required ::
    "State \<Rightarrow> Menu \<Rightarrow> OrderItemCreate \<Rightarrow> Customization option" where
  "first_missing_required state menu ord =
     find (\<lambda>c. c_id c \<notin> set (selected_customizations state ord))
       (filter (\<lambda>c. c_menu_id c = m_id menu \<and> c_required c) (customizations state))"

definition first_duplicated_unique ::
    "State \<Rightarrow> Menu \<Rightarrow> OrderItemCreate \<Rightarrow> Customization option" where
  "first_duplicated_unique state menu ord =
     find (\<lambda>c. count_list (selected_customizations state ord) (c_id c) > 1)
       (filter (\<lambda>c. c_menu_id c = m_id menu \<and> c_unique c) (customizations state))"

subsection \<open>The price of a payload\<close>

definition menu_base_price :: "State \<Rightarrow> int \<Rightarrow> rat" where
  "menu_base_price state menu_id =
     (case find (\<lambda>m. m_id m = menu_id) (menus state) of
        None \<Rightarrow> 0
      | Some menu \<Rightarrow> dec_val (m_price menu))"

definition option_extra_price :: "State \<Rightarrow> int \<Rightarrow> rat" where
  "option_extra_price state option_id =
     (case query_option state option_id of
        None \<Rightarrow> 0
      | Some (opt, cust) \<Rightarrow>
          (case o_extra_price opt of None \<Rightarrow> 0 | Some extra_price \<Rightarrow> dec_val extra_price))"

text \<open>
  The sum, over the line items, of the base price of the item's menu plus the extra price
  of every selected option that has one.
\<close>

definition item_price :: "State \<Rightarrow> OrderItemCreate \<Rightarrow> rat" where
  "item_price state ord =
     menu_base_price state (oic_menu_id ord) +
     sum_list (map (\<lambda>oc. option_extra_price state (ooc_option_id oc)) (oic_options ord))"

definition order_total :: "State \<Rightarrow> OrderCreate \<Rightarrow> rat" where
  "order_total state payload = sum_list (map (item_price state) (oc_items payload))"

text \<open>Two payloads that differ at most in the quantities of their line items.\<close>

definition same_up_to_quantity :: "OrderCreate \<Rightarrow> OrderCreate \<Rightarrow> bool" where
  "same_up_to_quantity p p' \<longleftrightarrow>
     oc_restaurant_id p = oc_restaurant_id p' \<and>
     list_all2 (\<lambda>a b. a\<lparr>oic_quantity := oic_quantity b\<rparr> = b) (oc_items p) (oc_items p')"

subsection \<open>Status and satellite rows\<close>

definition n_cancelled :: "State \<Rightarrow> int \<Rightarrow> nat" where
  "n_cancelled state order_id =
     length (filter (\<lambda>c. co_order_id c = order_id) (cancelled_orders state))"

definition n_preparing :: "State \<Rightarrow> int \<Rightarrow> nat" where
  "n_preparing state order_id =
     length (filter (\<lambda>p. po_order_id p = order_id) (preparing_orders state))"

definition n_ready :: "State \<Rightarrow> int \<Rightarrow> nat" where
  "n_ready state order_id =
     length (filter (\<lambda>r. ro_order_id r = order_id) (ready_orders state))"

definition n_settled :: "State \<Rightarrow> int \<Rightarrow> nat" where
  "n_settled state order_id =
     length (filter (\<lambda>x. so_order_id x = order_id) (settled_orders state))"

text \<open>
  The consistency of one order: an order that is ORDERED has no satellite row at all, an
  order in any other status has exactly one satellite row of the kind of that status.
\<close>

definition status_consistent :: "State \<Rightarrow> Order \<Rightarrow> bool" where
  "status_consistent state ord \<longleftrightarrow>
     (case ord_status ord of
        ORDERED \<Rightarrow>
          n_cancelled state (ord_id ord) = 0 \<and> n_preparing state (ord_id ord) = 0 \<and>
          n_ready state (ord_id ord) = 0 \<and> n_settled state (ord_id ord) = 0
      | PREPARING \<Rightarrow> n_preparing state (ord_id ord) = 1
      | READY \<Rightarrow> n_ready state (ord_id ord) = 1
      | SETTLED \<Rightarrow> n_settled state (ord_id ord) = 1
      | CANCELLED \<Rightarrow> n_cancelled state (ord_id ord) = 1)"

definition consistent :: "State \<Rightarrow> bool" where
  "consistent state \<longleftrightarrow> (\<forall>ord \<in> set (orders state). status_consistent state ord)"

text \<open>
  The satellite rows an order has gathered on its way to its status, which is what the
  transitions maintain: each status fixes how many rows of each kind exist.
\<close>

definition history_ok :: "State \<Rightarrow> Order \<Rightarrow> bool" where
  "history_ok state ord \<longleftrightarrow>
     (case ord_status ord of
        ORDERED \<Rightarrow>
          n_cancelled state (ord_id ord) = 0 \<and> n_preparing state (ord_id ord) = 0 \<and>
          n_ready state (ord_id ord) = 0 \<and> n_settled state (ord_id ord) = 0
      | PREPARING \<Rightarrow>
          n_cancelled state (ord_id ord) = 0 \<and> n_preparing state (ord_id ord) = 1 \<and>
          n_ready state (ord_id ord) = 0 \<and> n_settled state (ord_id ord) = 0
      | READY \<Rightarrow>
          n_cancelled state (ord_id ord) = 0 \<and> n_preparing state (ord_id ord) = 1 \<and>
          n_ready state (ord_id ord) = 1 \<and> n_settled state (ord_id ord) = 0
      | SETTLED \<Rightarrow>
          n_cancelled state (ord_id ord) = 0 \<and> n_preparing state (ord_id ord) = 1 \<and>
          n_ready state (ord_id ord) = 1 \<and> n_settled state (ord_id ord) = 1
      | CANCELLED \<Rightarrow>
          n_cancelled state (ord_id ord) = 1 \<and>
          n_ready state (ord_id ord) = 0 \<and> n_settled state (ord_id ord) = 0)"

text \<open>
  The invariant of the store: order ids are distinct, every satellite row refers to an
  order of the table, and every order has the satellite rows of its history.
\<close>

definition store_ok :: "State \<Rightarrow> bool" where
  "store_ok state \<longleftrightarrow>
     distinct (map ord_id (orders state)) \<and>
     (\<forall>ord \<in> set (orders state). history_ok state ord) \<and>
     co_order_id ` set (cancelled_orders state) \<subseteq> ord_id ` set (orders state) \<and>
     po_order_id ` set (preparing_orders state) \<subseteq> ord_id ` set (orders state) \<and>
     ro_order_id ` set (ready_orders state) \<subseteq> ord_id ` set (orders state) \<and>
     so_order_id ` set (settled_orders state) \<subseteq> ord_id ` set (orders state)"

text \<open>
  The status payload that carries the fields of the satellite row a transition writes: the
  time of the call and, for a cancellation, the role of the actor and the reason given.
\<close>

definition cancelled_by :: "Role \<Rightarrow> OrderCancelledBy" where
  "cancelled_by role = (case role of CUSTOMER \<Rightarrow> BY_CUSTOMER | MERCHANT \<Rightarrow> BY_MERCHANT)"

fun written_status :: "Role \<Rightarrow> OrderStatusUpdate \<Rightarrow> int \<Rightarrow> OrderStatus" where
  "written_status role (CancelledOrderUpdate reason) now =
     CancelledOrderSchema (cancelled_by role) now reason"
| "written_status role PreparingOrderUpdate now = PreparingOrderSchema now"
| "written_status role ReadyOrderUpdate now = ReadyOrderSchema now"
| "written_status role SettledOrderUpdate now = SettledOrderSchema now"

text \<open>The satellite table of the update's kind has gained exactly the row of the transition.\<close>

fun satellite_written ::
    "State \<Rightarrow> State \<Rightarrow> int \<Rightarrow> Role \<Rightarrow> OrderStatusUpdate \<Rightarrow> int \<Rightarrow> bool" where
  "satellite_written state state' order_id role (CancelledOrderUpdate reason) now \<longleftrightarrow>
     cancelled_orders state' = cancelled_orders state @
       [\<lparr>co_order_id = order_id, co_cancelled_time = now,
         co_cancelled_by = cancelled_by role, co_reason = reason\<rparr>]"
| "satellite_written state state' order_id role PreparingOrderUpdate now \<longleftrightarrow>
     preparing_orders state' = preparing_orders state @
       [\<lparr>po_order_id = order_id, po_prepared_at = now\<rparr>]"
| "satellite_written state state' order_id role ReadyOrderUpdate now \<longleftrightarrow>
     ready_orders state' = ready_orders state @ [\<lparr>ro_order_id = order_id, ro_ready_at = now\<rparr>]"
| "satellite_written state state' order_id role SettledOrderUpdate now \<longleftrightarrow>
     settled_orders state' = settled_orders state @
       [\<lparr>so_order_id = order_id, so_settled_at = now\<rparr>]"

section \<open>A small store\<close>

text \<open>
  One restaurant (owned by merchant 7) selling a burger at 8.00, with a required
  customization for the size (Large, 1.50 extra; Regular, no extra charge) and a unique
  customization for the cheese level (Extra Cheese, 0.75 extra).
\<close>

definition ex_state :: State where
  "ex_state =
     \<lparr>restaurants = [\<lparr>r_id = 1, r_merchant_id = 7\<rparr>],
      menus = [\<lparr>m_id = 1, m_restaurant_id = 1, m_price = \<lparr>coeff = 800, expo = - 2\<rparr>\<rparr>],
      customizations =
        [\<lparr>c_id = 1, c_menu_id = 1, c_required = True, c_unique = False\<rparr>,
         \<lparr>c_id = 2, c_menu_id = 1, c_required = False, c_unique = True\<rparr>],
      options =
        [\<lparr>o_id = 1, o_customization_id = 1, o_extra_price = Some \<lparr>coeff = 15, expo = - 1\<rparr>\<rparr>,
         \<lparr>o_id = 2, o_customization_id = 2, o_extra_price = Some \<lparr>coeff = 75, expo = - 2\<rparr>\<rparr>,
         \<lparr>o_id = 3, o_customization_id = 1, o_extra_price = None\<rparr>],
      orders = [], order_items = [], order_options = [], cancelled_orders = [],
      preparing_orders = [], ready_orders = [], settled_orders = []\<rparr>"

definition ex_restaurant :: Restaurant where
  "ex_restaurant = \<lparr>r_id = 1, r_merchant_id = 7\<rparr>"

definition ex_menu :: Menu where
  "ex_menu = \<lparr>m_id = 1, m_restaurant_id = 1, m_price = \<lparr>coeff = 800, expo = - 2\<rparr>\<rparr>"

definition ex_size :: Customization where
  "ex_size = \<lparr>c_id = 1, c_menu_id = 1, c_required = True, c_unique = False\<rparr>"

definition ex_cheese :: Customization where
  "ex_cheese = \<lparr>c_id = 2, c_menu_id = 1, c_required = False, c_unique = True\<rparr>"

definition ex_item :: "int \<Rightarrow> int \<Rightarrow> int list \<Rightarrow> OrderItemCreate" where
  "ex_item menu_id quantity option_ids =
     \<lparr>oic_menu_id = menu_id, oic_quantity = quantity, oic_extra_requests = None,
      oic_options = map (\<lambda>i. \<lparr>ooc_option_id = i\<rparr>) option_ids\<rparr>"

definition ex_payload :: "OrderItemCreate list \<Rightarrow> OrderCreate" where
  "ex_payload items = \<lparr>oc_restaurant_id = 1, oc_items = items\<rparr>"

text \<open>The store after customer 5 has ordered one burger, large, at time 100.\<close>

definition ex_ordered :: State where
  "ex_ordered = run ex_state [CreateOrderRequest 5 (ex_payload [ex_item 1 1 [1]]) 100]"

definition ex_order :: Order where
  "ex_order =
     \<lparr>ord_id = 1, ord_customer_id = 5, ord_restaurant_id = 1, ord_ordered_at = 100,
      ord_price_paid = \<lparr>coeff = 950, expo = - 2\<rparr>, ord_status = ORDERED\<rparr>"

text \<open>The same store after the customer has cancelled the order at time 200.\<close>

definition ex_cancelled :: State where
  "ex_cancelled =
     run ex_ordered [UpdateStatusRequest 5 CUSTOMER 1 (CancelledOrderUpdate (Some ''late'')) 200]"

section \<open>Properties of the status machine\<close>



text \<open>
  Claim C4. An order whose status is CANCELLED or SETTLED never changes status again:
  whoever calls \<^verbatim>\<open>update_order_status\<close> on it, with whatever role and requested update,
  the call raises and the store is unchanged; for an actor who passes the authorization the
  error is \<^verbatim>\<open>InvalidArgumentError\<close>.
\<close>

theorem terminal_statuses_final:
  assumes "find (\<lambda>ord. ord_id ord = order_id) (orders state) = Some ord"
    and "ord_status ord = CANCELLED \<or> ord_status ord = SETTLED"
  shows "(\<exists>e. update_order_status state user_id role order_id status now = (Inl e, state)) \<and>
         (get_order_with_validation state user_id role order_id = Inr ord \<longrightarrow>
           (\<exists>msg. update_order_status state user_id role order_id status now =
              (Inl (InvalidArgumentError msg), state)))"
proof -
  have ord: "get_order_with_validation state user_id role order_id = Inr ord \<or>
    (\<exists>e. get_order_with_validation state user_id role order_id = Inl e)"
    using assms(1) by (auto simp: get_order_with_validation_def split: Role.splits option.splits)
  have tr: "\<exists>msg. transition state ord now role (ord_status ord) status =
              (Inl (InvalidArgumentError msg), state)"
    using assms(2) by (cases role; cases status) auto
  show ?thesis using ord tr by (auto simp: update_order_status_def)
qed

theorem terminal_statuses_final_witness:
  "find (\<lambda>ord. ord_id ord = 1) (orders ex_cancelled) = Some (ex_order\<lparr>ord_status := CANCELLED\<rparr>) \<and>
   get_order_with_validation ex_cancelled 7 MERCHANT 1 = Inr (ex_order\<lparr>ord_status := CANCELLED\<rparr>) \<and>
   (\<exists>msg. update_order_status ex_cancelled 7 MERCHANT 1 PreparingOrderUpdate 300 =
      (Inl (InvalidArgumentError msg), ex_cancelled))"
proof -
  have h1: "find (\<lambda>ord. ord_id ord = 1) (orders ex_cancelled) =
      Some (ex_order\<lparr>ord_status := CANCELLED\<rparr>)"
    by code_simp
  have h2: "ord_status (ex_order\<lparr>ord_status := CANCELLED\<rparr>) = CANCELLED \<or>
      ord_status (ex_order\<lparr>ord_status := CANCELLED\<rparr>) = SETTLED"
    by simp
  have h3: "get_order_with_validation ex_cancelled 7 MERCHANT 1 =
      Inr (ex_order\<lparr>ord_status := CANCELLED\<rparr>)"
    by code_simp
  show ?thesis
    using h1 h3 terminal_statuses_final [OF h1 h2, of 7 MERCHANT PreparingOrderUpdate 300]
    by blast
qed

section \<open>Properties of order creation\<close>

subsection \<open>Decimal addition is exact\<close>

lemma dec_val_powi: "dec_val d = of_int (coeff d) * 10 powi expo d"
  by (simp add: dec_val_def power_int_def field_simps)

lemma powi_shift: "e' \<le> e \<Longrightarrow> (10::rat) ^ nat (e - e') * 10 powi e' = 10 powi e"
proof -
  assume "e' \<le> e"
  then have "(10::rat) ^ nat (e - e') = 10 powi (e - e')"
    by (simp add: power_int_def)
  then show ?thesis
    by (simp add: power_int_add [symmetric])
qed

lemma dec_val_add: "dec_val (dec_add a b) = dec_val a + dec_val b"
proof -
  let ?e = "min (expo a) (expo b)"
  have a: "(10::rat) ^ nat (expo a - ?e) * 10 powi ?e = 10 powi expo a"
    by (rule powi_shift) simp
  have b: "(10::rat) ^ nat (expo b - ?e) * 10 powi ?e = 10 powi expo b"
    by (rule powi_shift) simp
  have "dec_val (dec_add a b) =
      of_int (coeff a) * (10 ^ nat (expo a - ?e) * 10 powi ?e) +
      of_int (coeff b) * (10 ^ nat (expo b - ?e) * 10 powi ?e)"
    by (simp add: dec_val_powi dec_add_def Let_def algebra_simps)
  then show ?thesis
    by (simp only: a b dec_val_powi)
qed

lemma dec_val_Decimal: "dec_val (Decimal n) = of_int n"
  by (simp add: dec_val_def Decimal_def)

subsection \<open>The loop over the options\<close>

lemma check_options_Inr:
  "options_ok state menu opts \<Longrightarrow>
   \<exists>p'. check_options state menu opts seen p = Inr (seen @ resolved_customizations state opts, p') \<and>
        dec_val p' = dec_val p +
          sum_list (map (\<lambda>oc. option_extra_price state (ooc_option_id oc)) opts)"
proof (induction opts arbitrary: seen p)
  case Nil
  then show ?case by (simp add: resolved_customizations_def)
next
  case (Cons oc opts)
  from Cons.prems obtain opt cust where
    q: "query_option state (ooc_option_id oc) = Some (opt, cust)" and
    m: "c_menu_id cust = m_id menu" and rest: "options_ok state menu opts"
    by (auto simp: options_ok_def split: option.splits)
  let ?p = "case o_extra_price opt of None \<Rightarrow> p | Some extra_price \<Rightarrow> dec_add p extra_price"
  have pv: "dec_val ?p = dec_val p + option_extra_price state (ooc_option_id oc)"
    by (simp add: option_extra_price_def q dec_val_add split: option.splits)
  from Cons.IH [OF rest, of "seen @ [c_id cust]" ?p] obtain p' where
    "check_options state menu opts (seen @ [c_id cust]) ?p =
       Inr ((seen @ [c_id cust]) @ resolved_customizations state opts, p')"
    "dec_val p' = dec_val ?p +
       sum_list (map (\<lambda>oc. option_extra_price state (ooc_option_id oc)) opts)"
    by blast
  then show ?case
    using q m pv by (simp add: resolved_customizations_def)
qed

lemma check_options_Inl:
  "\<not> options_ok state menu opts \<Longrightarrow> \<exists>e. check_options state menu opts seen p = Inl e"
proof (induction opts arbitrary: seen p)
  case Nil
  then show ?case by (simp add: options_ok_def)
next
  case (Cons oc opts)
  show ?case
  proof (cases "query_option state (ooc_option_id oc)")
    case None
    then show ?thesis by simp
  next
    case (Some a)
    obtain opt cust where a: "a = (opt, cust)" by (cases a)
    show ?thesis
    proof (cases "c_menu_id cust = m_id menu")
      case True
      with Cons.prems Some a have "\<not> options_ok state menu opts"
        by (simp add: options_ok_def)
      from Cons.IH [OF this] show ?thesis using Some a True by simp
    next
      case False
      then show ?thesis using Some a by simp
    qed
  qed
qed

lemma check_options_error_indep:
  "check_options state menu opts seen p = Inl e \<Longrightarrow>
   check_options state menu opts seen' p' = Inl e"
proof (induction opts arbitrary: seen p seen' p')
  case Nil
  then show ?case by simp
next
  case (Cons oc opts)
  then show ?case
    by (auto simp: Let_def split: option.splits if_splits prod.splits)
qed

subsection \<open>Required and unique customizations\<close>

lemma check_required_find:
  "check_required menu seen cs =
     (case find (\<lambda>c. c_id c \<notin> set seen) cs of
        None \<Rightarrow> Inr ()
      | Some c \<Rightarrow> Inl (InvalidArgumentError
             (''menu with id '' @ str_int (m_id menu) @
              '' requires customization with id '' @ str_int (c_id c))))"
  by (induction cs) auto

lemma check_unique_find:
  "check_unique menu seen cs =
     (case find (\<lambda>c. count_list seen (c_id c) > 1) cs of
        None \<Rightarrow> Inr ()
      | Some c \<Rightarrow> Inl (InvalidArgumentError
             (''menu with id '' @ str_int (m_id menu) @
              '' requires customization with id '' @ str_int (c_id c) @
              '' to be unique'')))"
  by (induction cs) auto


subsection \<open>One line item\<close>

lemma find_filter_None:
  "find P (filter Q xs) = None \<longleftrightarrow> \<not> (\<exists>x \<in> set xs. Q x \<and> P x)"
  by (auto simp: find_None_iff)

lemma validate_item_valid:
  assumes "\<not> item_invalid state r ord"
  shows "\<exists>p'. validate_item state r p ord = Inr p' \<and>
              dec_val p' = dec_val p + item_price state ord"
proof -
  from assms obtain menu where
    menu: "find (\<lambda>m. m_id m = oic_menu_id ord) (menus state) = Some menu"
    by (auto simp: item_invalid_def split: option.splits)
  from assms menu have
    rest: "m_restaurant_id menu = r_id r" and qty: "\<not> oic_quantity ord < 1" and
    opts: "options_ok state menu (oic_options ord)" and
    req: "\<not> (\<exists>c \<in> set (customizations state).
             (c_menu_id c = m_id menu \<and> c_required c) \<and>
             c_id c \<notin> set (selected_customizations state ord))" and
    uniq: "\<not> (\<exists>c \<in> set (customizations state).
             (c_menu_id c = m_id menu \<and> c_unique c) \<and>
             count_list (selected_customizations state ord) (c_id c) > 1)"
    by (auto simp: item_invalid_def)
  from check_options_Inr [OF opts, of "[]" "dec_add p (m_price menu)"] obtain p' where
    co: "check_options state menu (oic_options ord) [] (dec_add p (m_price menu)) =
           Inr (selected_customizations state ord, p')" and
    pv: "dec_val p' = dec_val (dec_add p (m_price menu)) +
           sum_list (map (\<lambda>oc. option_extra_price state (ooc_option_id oc)) (oic_options ord))"
    by (auto simp: selected_customizations_def)
  have r: "find (\<lambda>c. c_id c \<notin> set (selected_customizations state ord))
             (filter (\<lambda>c. c_menu_id c = m_id menu \<and> c_required c) (customizations state)) = None"
    using req by (simp only: find_filter_None simp_thms)
  have u: "find (\<lambda>c. count_list (selected_customizations state ord) (c_id c) > 1)
             (filter (\<lambda>c. c_menu_id c = m_id menu \<and> c_unique c) (customizations state)) = None"
    using uniq by (simp only: find_filter_None simp_thms)
  have "validate_item state r p ord = Inr p'"
    using menu rest qty co r u
    by (simp add: validate_item_def check_required_find check_unique_find)
  moreover have "dec_val p' = dec_val p + item_price state ord"
    using pv menu by (simp add: item_price_def menu_base_price_def dec_val_add)
  ultimately show ?thesis by blast
qed

lemma validate_item_invalid:
  assumes "item_invalid state r ord"
  shows "\<exists>e. validate_item state r p ord = Inl e"
proof (cases "find (\<lambda>m. m_id m = oic_menu_id ord) (menus state)")
  case None
  then show ?thesis by (simp add: validate_item_def)
next
  case (Some menu)
  show ?thesis
  proof (cases "m_restaurant_id menu \<noteq> r_id r \<or> oic_quantity ord < 1")
    case True
    then show ?thesis using Some by (auto simp: validate_item_def)
  next
    case False
    show ?thesis
    proof (cases "options_ok state menu (oic_options ord)")
      case no: False
      from check_options_Inl [OF no, of "[]" "dec_add p (m_price menu)"]
      show ?thesis using Some False by (auto simp: validate_item_def)
    next
      case ok: True
      from check_options_Inr [OF ok, of "[]" "dec_add p (m_price menu)"] obtain p' where
        co: "check_options state menu (oic_options ord) [] (dec_add p (m_price menu)) =
               Inr (selected_customizations state ord, p')"
        by (auto simp: selected_customizations_def)
      from assms Some False ok have
        "(\<exists>c \<in> set (customizations state).
             (c_menu_id c = m_id menu \<and> c_required c) \<and>
             c_id c \<notin> set (selected_customizations state ord)) \<or>
         (\<exists>c \<in> set (customizations state).
             (c_menu_id c = m_id menu \<and> c_unique c) \<and>
             count_list (selected_customizations state ord) (c_id c) > 1)"
        by (auto simp: item_invalid_def)
      then have "find (\<lambda>c. c_id c \<notin> set (selected_customizations state ord))
             (filter (\<lambda>c. c_menu_id c = m_id menu \<and> c_required c) (customizations state)) \<noteq> None
        \<or> find (\<lambda>c. count_list (selected_customizations state ord) (c_id c) > 1)
             (filter (\<lambda>c. c_menu_id c = m_id menu \<and> c_unique c) (customizations state)) \<noteq> None"
        by (simp only: find_filter_None) blast
      then show ?thesis
        using Some False co
        by (auto simp: validate_item_def check_required_find check_unique_find
            split: option.splits)
    qed
  qed
qed

lemma validate_item_error_indep:
  assumes "validate_item state r p ord = Inl e"
  shows "validate_item state r p' ord = Inl e"
proof (cases "find (\<lambda>m. m_id m = oic_menu_id ord) (menus state)")
  case None
  with assms show ?thesis by (simp add: validate_item_def)
next
  case (Some menu)
  show ?thesis
  proof (cases "options_ok state menu (oic_options ord)")
    case no: False
    from check_options_Inl [OF no, of "[]" "dec_add p (m_price menu)"] obtain e' where
      e': "check_options state menu (oic_options ord) [] (dec_add p (m_price menu)) = Inl e'"
      by blast
    from check_options_error_indep [OF e', of "[]" "dec_add p' (m_price menu)"]
    show ?thesis using assms Some e'
      by (auto simp: validate_item_def split: if_splits)
  next
    case ok: True
    from check_options_Inr [OF ok, of "[]" "dec_add p (m_price menu)"] obtain q where
      co: "check_options state menu (oic_options ord) [] (dec_add p (m_price menu)) =
               Inr (selected_customizations state ord, q)"
      by (auto simp: selected_customizations_def)
    from check_options_Inr [OF ok, of "[]" "dec_add p' (m_price menu)"] obtain q' where
      co': "check_options state menu (oic_options ord) [] (dec_add p' (m_price menu)) =
               Inr (selected_customizations state ord, q')"
      by (auto simp: selected_customizations_def)
    show ?thesis using assms Some co co'
      by (auto simp: validate_item_def split: if_splits sum.splits)
  qed
qed

subsection \<open>All line items\<close>

lemma validate_items_valid:
  "\<forall>ord \<in> set items. \<not> item_invalid state r ord \<Longrightarrow>
   \<exists>p'. validate_items state r p items = Inr p' \<and>
        dec_val p' = dec_val p + sum_list (map (item_price state) items)"
proof (induction items arbitrary: p)
  case Nil
  then show ?case by simp
next
  case (Cons ord items)
  from Cons.prems have "\<not> item_invalid state r ord" by simp
  from validate_item_valid [OF this, of p] obtain p1 where
    p1: "validate_item state r p ord = Inr p1" "dec_val p1 = dec_val p + item_price state ord"
    by blast
  from Cons.prems have "\<forall>ord \<in> set items. \<not> item_invalid state r ord" by simp
  from Cons.IH [OF this, of p1] obtain p' where
    "validate_items state r p1 items = Inr p'"
    "dec_val p' = dec_val p1 + sum_list (map (item_price state) items)"
    by blast
  with p1 show ?case by simp
qed

lemma validate_items_first_failure:
  assumes "\<forall>i \<in> set pre. \<not> item_invalid state r i"
    and "validate_item state r q ord = Inl e"
  shows "validate_items state r p (pre @ ord # post) = Inl e"
  using assms(1)
proof (induction pre arbitrary: p)
  case Nil
  from validate_item_error_indep [OF assms(2), of p] show ?case by simp
next
  case (Cons i pre)
  from Cons.prems have "\<not> item_invalid state r i" by simp
  from validate_item_valid [OF this, of p] obtain p1 where
    "validate_item state r p i = Inr p1" by blast
  moreover from Cons.prems have "\<forall>i \<in> set pre. \<not> item_invalid state r i" by simp
  from Cons.IH [OF this, of p1] have "validate_items state r p1 (pre @ ord # post) = Inl e" .
  ultimately show ?case by simp
qed

lemma validate_items_invalid:
  "\<exists>ord \<in> set items. item_invalid state r ord \<Longrightarrow>
   \<exists>e. validate_items state r p items = Inl e"
proof (induction items arbitrary: p)
  case Nil
  then show ?case by simp
next
  case (Cons ord items)
  show ?case
  proof (cases "item_invalid state r ord")
    case True
    from validate_item_invalid [OF this, of p] show ?thesis by auto
  next
    case False
    from validate_item_valid [OF this, of p] obtain p1 where
      p1: "validate_item state r p ord = Inr p1" by blast
    from Cons.prems False have "\<exists>ord \<in> set items. item_invalid state r ord" by simp
    from Cons.IH [OF this, of p1] show ?thesis using p1 by simp
  qed
qed

subsection \<open>The writes\<close>

lemma persist_options_orders: "orders (persist_options state i opts) = orders state"
  by (induction opts arbitrary: state) simp_all

lemma persist_items_orders: "orders (persist_items state oid items) = orders state"
  by (induction items arbitrary: state) (simp_all add: Let_def persist_options_orders)

subsection \<open>Success and failure of the whole call\<close>

lemma create_order_failure:
  assumes "payload_invalid state payload"
  shows "\<exists>e. create_order state customer_id payload ordered_at = (Inl e, state)"
proof (cases "get_restaurant state (oc_restaurant_id payload)")
  case (Inl e)
  then show ?thesis by (simp add: create_order_def)
next
  case (Inr r)
  with assms have "\<exists>ord \<in> set (oc_items payload). item_invalid state r ord"
    by (simp add: payload_invalid_def)
  from validate_items_invalid [OF this, of "Decimal 0"] obtain e where
    "validate_items state r (Decimal 0) (oc_items payload) = Inl e" by blast
  with Inr show ?thesis by (simp add: create_order_def)
qed

lemma create_order_success:
  assumes "\<not> payload_invalid state payload"
  shows "\<exists>r price_paid.
           get_restaurant state (oc_restaurant_id payload) = Inr r \<and>
           validate_items state r (Decimal 0) (oc_items payload) = Inr price_paid \<and>
           dec_val price_paid = order_total state payload \<and>
           fst (create_order state customer_id payload ordered_at) =
             Inr (fresh_id (map ord_id (orders state))) \<and>
           orders (snd (create_order state customer_id payload ordered_at)) =
             orders state @
               [\<lparr>ord_id = fresh_id (map ord_id (orders state)), ord_customer_id = customer_id,
                 ord_restaurant_id = r_id r, ord_ordered_at = ordered_at,
                 ord_price_paid = price_paid, ord_status = ORDERED\<rparr>]"
proof -
  from assms obtain r where
    r: "get_restaurant state (oc_restaurant_id payload) = Inr r" and
    ok: "\<forall>ord \<in> set (oc_items payload). \<not> item_invalid state r ord"
    by (auto simp: payload_invalid_def split: sum.splits)
  from validate_items_valid [OF ok, of "Decimal 0"] obtain price_paid where
    v: "validate_items state r (Decimal 0) (oc_items payload) = Inr price_paid" and
    pv: "dec_val price_paid = order_total state payload"
    by (auto simp: dec_val_Decimal order_total_def)
  show ?thesis
    using r v pv by (simp add: create_order_def Let_def persist_items_orders)
qed


text \<open>
  Claim C2. \<^verbatim>\<open>create_order\<close> is all-or-nothing. It raises exactly when the payload is
  invalid, that is when the restaurant is missing or some line item, at whatever position,
  has a missing menu, a menu of another restaurant, a quantity below one, a missing option or
  an option of another menu, a required customization without a selected option or a unique
  customization with more than one; and then the store is left as it was, with no new row
  in any table. All checks of all items precede the first write.
\<close>

theorem create_order_all_or_nothing:
  "((\<exists>e. fst (create_order state customer_id payload ordered_at) = Inl e) \<longleftrightarrow>
      payload_invalid state payload) \<and>
   (payload_invalid state payload \<longrightarrow>
      snd (create_order state customer_id payload ordered_at) = state)"
proof -
  have a: "payload_invalid state payload \<Longrightarrow>
      \<exists>e. create_order state customer_id payload ordered_at = (Inl e, state)"
    by (rule create_order_failure)
  have b: "\<not> payload_invalid state payload \<Longrightarrow>
      \<exists>i. fst (create_order state customer_id payload ordered_at) = Inr i"
    using create_order_success [of state payload customer_id ordered_at] by blast
  show ?thesis using a b by (cases "payload_invalid state payload") auto
qed



theorem create_order_all_or_nothing_witness:
  "payload_invalid ex_state (ex_payload [ex_item 1 1 [1], ex_item 1 1 [1, 2, 2]]) \<and>
   (\<exists>e. fst (create_order ex_state 5
      (ex_payload [ex_item 1 1 [1], ex_item 1 1 [1, 2, 2]]) 100) = Inl e) \<and>
   snd (create_order ex_state 5
      (ex_payload [ex_item 1 1 [1], ex_item 1 1 [1, 2, 2]]) 100) = ex_state"
proof -
  have h: "payload_invalid ex_state (ex_payload [ex_item 1 1 [1], ex_item 1 1 [1, 2, 2]])"
    by code_simp
  show ?thesis
    using h create_order_all_or_nothing
      [of ex_state 5 "ex_payload [ex_item 1 1 [1], ex_item 1 1 [1, 2, 2]]" 100]
    by blast
qed

subsection \<open>Quantities\<close>

lemma validate_item_quantity:
  assumes "1 \<le> oic_quantity a" and "1 \<le> oic_quantity b"
    and "a\<lparr>oic_quantity := oic_quantity b\<rparr> = b"
  shows "validate_item state r p a = validate_item state r p b"
proof -
  from assms(3) have "oic_menu_id a = oic_menu_id b" "oic_options a = oic_options b"
    by (metis OrderItemCreate.select_convs OrderItemCreate.surjective OrderItemCreate.update_convs)+
  with assms(1,2) show ?thesis
    by (simp add: validate_item_def split: option.splits)
qed

lemma validate_items_quantity:
  assumes "list_all2 (\<lambda>a b. a\<lparr>oic_quantity := oic_quantity b\<rparr> = b) items items'"
    and "\<forall>i \<in> set items. 1 \<le> oic_quantity i"
    and "\<forall>i \<in> set items'. 1 \<le> oic_quantity i"
  shows "validate_items state r p items = validate_items state r p items'"
  using assms
proof (induction items items' arbitrary: p rule: list_all2_induct)
  case Nil
  then show ?case by simp
next
  case (Cons a items b items')
  have "validate_item state r p a = validate_item state r p b"
    using Cons.hyps(1) Cons.prems by (intro validate_item_quantity) simp_all
  moreover have "validate_items state r q items = validate_items state r q items'" for q
    using Cons.prems by (intro Cons.IH) simp_all
  ultimately show ?case by (simp split: sum.splits)
qed

text \<open>
  Claim C10. The price paid does not depend on the quantities of the line items: for two
  payloads that are identical except for quantities, all of them at least one,
  \<^verbatim>\<open>create_order\<close> returns or raises the same and leaves the same order table, hence
  the same \<^verbatim>\<open>price_paid\<close>; a line item contributes its prices once, whatever its quantity.
\<close>

theorem price_independent_of_quantity:
  assumes "same_up_to_quantity p p'"
    and "\<forall>i \<in> set (oc_items p). 1 \<le> oic_quantity i"
    and "\<forall>i \<in> set (oc_items p'). 1 \<le> oic_quantity i"
  shows "fst (create_order state customer_id p ordered_at) =
           fst (create_order state customer_id p' ordered_at) \<and>
         orders (snd (create_order state customer_id p ordered_at)) =
           orders (snd (create_order state customer_id p' ordered_at))"
proof -
  from assms(1) have rid: "oc_restaurant_id p = oc_restaurant_id p'" and
    l: "list_all2 (\<lambda>a b. a\<lparr>oic_quantity := oic_quantity b\<rparr> = b) (oc_items p) (oc_items p')"
    by (simp_all add: same_up_to_quantity_def)
  have "validate_items state r q (oc_items p) = validate_items state r q (oc_items p')" for r q
    using l assms(2,3) by (rule validate_items_quantity)
  then show ?thesis
    using rid
    by (simp add: create_order_def Let_def persist_items_orders split: sum.splits)
qed

theorem price_independent_of_quantity_witness:
  "same_up_to_quantity (ex_payload [ex_item 1 1 [1, 2]]) (ex_payload [ex_item 1 40 [1, 2]]) \<and>
   1 \<le> oic_quantity (ex_item 1 1 [1, 2]) \<and>
   1 \<le> oic_quantity (ex_item 1 40 [1, 2]) \<and>
   map ord_price_paid
     (orders (snd (create_order ex_state 5 (ex_payload [ex_item 1 1 [1, 2]]) 100))) =
     [\<lparr>coeff = 1025, expo = - 2\<rparr>] \<and>
   map ord_price_paid
     (orders (snd (create_order ex_state 5 (ex_payload [ex_item 1 40 [1, 2]]) 100))) =
     [\<lparr>coeff = 1025, expo = - 2\<rparr>]"
proof -
  have h1: "same_up_to_quantity (ex_payload [ex_item 1 1 [1, 2]])
      (ex_payload [ex_item 1 40 [1, 2]])"
    by code_simp
  have q1: "1 \<le> oic_quantity (ex_item 1 1 [1, 2])"
    by code_simp
  have q2: "1 \<le> oic_quantity (ex_item 1 40 [1, 2])"
    by code_simp
  have h2: "\<forall>i \<in> set (oc_items (ex_payload [ex_item 1 1 [1, 2]])). 1 \<le> oic_quantity i"
    using q1 by (simp add: ex_payload_def)
  have h3: "\<forall>i \<in> set (oc_items (ex_payload [ex_item 1 40 [1, 2]])). 1 \<le> oic_quantity i"
    using q2 by (simp add: ex_payload_def)
  have v: "map ord_price_paid
     (orders (snd (create_order ex_state 5 (ex_payload [ex_item 1 1 [1, 2]]) 100))) =
     [\<lparr>coeff = 1025, expo = - 2\<rparr>]"
    by code_simp
  show ?thesis
    using h1 q1 q2 v price_independent_of_quantity [OF h1 h2 h3, of ex_state 5 100]
    by simp
qed

subsection \<open>The first check that fails\<close>

lemma create_order_first_failure:
  assumes "get_restaurant state (oc_restaurant_id payload) = Inr r"
    and "oc_items payload = pre @ ord # post"
    and "\<forall>i \<in> set pre. \<not> item_invalid state r i"
    and "validate_item state r q ord = Inl e"
  shows "create_order state customer_id payload ordered_at = (Inl e, state)"
  using assms(1,2) validate_items_first_failure [OF assms(3,4), of "Decimal 0" post]
  by (simp add: create_order_def)

lemma options_ok_append:
  "options_ok state menu (xs @ ys) \<longleftrightarrow> options_ok state menu xs \<and> options_ok state menu ys"
  by (auto simp: options_ok_def)

lemma check_options_append:
  assumes "options_ok state menu good"
  shows "\<exists>seen' p'. check_options state menu (good @ rest) seen p =
           check_options state menu rest seen' p'"
  using assms
proof (induction good arbitrary: seen p)
  case Nil
  then show ?case by auto
next
  case (Cons oc good)
  from Cons.prems obtain opt cust where
    q: "query_option state (ooc_option_id oc) = Some (opt, cust)" and
    m: "c_menu_id cust = m_id menu" and rest: "options_ok state menu good"
    by (auto simp: options_ok_def split: option.splits)
  from Cons.IH [OF rest] show ?case using q m by simp
qed

lemma validate_item_missing_menu:
  "find (\<lambda>m. m_id m = oic_menu_id ord) (menus state) = None \<Longrightarrow>
   validate_item state r p ord = Inl (NotFoundError ''menu with id {order.menu_id} not found'')"
  by (simp add: validate_item_def)

lemma validate_item_other_restaurant:
  "find (\<lambda>m. m_id m = oic_menu_id ord) (menus state) = Some menu \<Longrightarrow>
   m_restaurant_id menu \<noteq> r_id r \<Longrightarrow>
   validate_item state r p ord =
     Inl (InvalidArgumentError
       (''menu with id '' @ str_int (oic_menu_id ord) @
        '' is not in restaurant with id '' @ str_int (r_id r)))"
  by (simp add: validate_item_def)

lemma validate_item_quantity_error:
  "find (\<lambda>m. m_id m = oic_menu_id ord) (menus state) = Some menu \<Longrightarrow>
   m_restaurant_id menu = r_id r \<Longrightarrow> oic_quantity ord < 1 \<Longrightarrow>
   validate_item state r p ord =
     Inl (InvalidArgumentError
       (''menu with id '' @ str_int (oic_menu_id ord) @
        '' must have a quantity of at least 1''))"
  by (simp add: validate_item_def)

lemma validate_item_option_error:
  assumes "find (\<lambda>m. m_id m = oic_menu_id ord) (menus state) = Some menu"
    and "m_restaurant_id menu = r_id r" and "1 \<le> oic_quantity ord"
    and "oic_options ord = good @ oc # rest" and "options_ok state menu good"
  shows "(query_option state (ooc_option_id oc) = None \<longrightarrow>
           validate_item state r p ord =
             Inl (NotFoundError
               (''the option with id '' @ str_int (ooc_option_id oc) @ '' not found''))) \<and>
         (\<forall>opt cust. query_option state (ooc_option_id oc) = Some (opt, cust) \<and>
            c_menu_id cust \<noteq> m_id menu \<longrightarrow>
           validate_item state r p ord =
             Inl (InvalidArgumentError
               (''the option with id '' @ str_int (ooc_option_id oc) @
                '' is not in menu with id '' @ str_int (m_id menu))))"
proof -
  from check_options_append [OF assms(5), of "oc # rest" "[]" "dec_add p (m_price menu)"]
  obtain seen' p' where
    "check_options state menu (oic_options ord) [] (dec_add p (m_price menu)) =
       check_options state menu (oc # rest) seen' p'"
    using assms(4) by auto
  then show ?thesis
    using assms(1-3) by (auto simp: validate_item_def)
qed

lemma validate_item_required_error:
  assumes "find (\<lambda>m. m_id m = oic_menu_id ord) (menus state) = Some menu"
    and "m_restaurant_id menu = r_id r" and "1 \<le> oic_quantity ord"
    and "options_ok state menu (oic_options ord)"
    and "first_missing_required state menu ord = Some c"
  shows "validate_item state r p ord =
           Inl (InvalidArgumentError
             (''menu with id '' @ str_int (m_id menu) @
              '' requires customization with id '' @ str_int (c_id c)))"
proof -
  from check_options_Inr [OF assms(4), of "[]" "dec_add p (m_price menu)"] obtain p' where
    "check_options state menu (oic_options ord) [] (dec_add p (m_price menu)) =
       Inr (selected_customizations state ord, p')"
    by (auto simp: selected_customizations_def)
  then show ?thesis
    using assms(1-3,5)
    by (simp add: validate_item_def check_required_find first_missing_required_def)
qed

lemma validate_item_unique_error:
  assumes "find (\<lambda>m. m_id m = oic_menu_id ord) (menus state) = Some menu"
    and "m_restaurant_id menu = r_id r" and "1 \<le> oic_quantity ord"
    and "options_ok state menu (oic_options ord)"
    and "first_missing_required state menu ord = None"
    and "first_duplicated_unique state menu ord = Some c"
  shows "validate_item state r p ord =
           Inl (InvalidArgumentError
             (''menu with id '' @ str_int (m_id menu) @
              '' requires customization with id '' @ str_int (c_id c) @
              '' to be unique''))"
proof -
  from check_options_Inr [OF assms(4), of "[]" "dec_add p (m_price menu)"] obtain p' where
    "check_options state menu (oic_options ord) [] (dec_add p (m_price menu)) =
       Inr (selected_customizations state ord, p')"
    by (auto simp: selected_customizations_def)
  then show ?thesis
    using assms(1-3,5,6)
    by (simp add: validate_item_def check_required_find check_unique_find
        first_missing_required_def first_duplicated_unique_def)
qed

lemma find_filter_Some:
  "find P (filter Q xs) = Some x \<Longrightarrow> x \<in> set xs \<and> Q x \<and> P x"
  by (induction xs) (auto split: if_splits)

lemma invalid_item_fails:
  assumes "ord \<in> set (oc_items payload)"
    and "\<And>r. item_invalid state r ord"
  shows "\<exists>e. create_order state customer_id payload ordered_at = (Inl e, state)"
proof (rule create_order_failure)
  show "payload_invalid state payload"
    using assms by (auto simp: payload_invalid_def split: sum.splits)
qed

subsection \<open>The order of the checks and the errors they report\<close>

text \<open>
  Claim C9, as the code has it. \<^verbatim>\<open>create_order\<close> fails on the first violation, in a
  fixed order: the line items are checked in the order of the payload, and within a line item
  the existence of the menu comes first, then the restaurant of the menu, then the quantity,
  then the selected options one by one (existence, then menu), then the required
  customizations, then the unique ones. Each check reports its own error whatever the later
  checks would say and whatever follows in the payload, and the store is unchanged. In
  particular an item with a quantity below one and a menu id that does not exist reports the
  missing menu.
\<close>

theorem create_order_check_order:
  assumes r: "get_restaurant state (oc_restaurant_id payload) = Inr r"
    and items: "oc_items payload = pre @ ord # post"
    and pre: "\<forall>i \<in> set pre. \<not> item_invalid state r i"
  shows
    "(find (\<lambda>m. m_id m = oic_menu_id ord) (menus state) = None \<longrightarrow>
        create_order state customer_id payload ordered_at =
          (Inl (NotFoundError ''menu with id {order.menu_id} not found''), state)) \<and>
     (\<forall>menu. find (\<lambda>m. m_id m = oic_menu_id ord) (menus state) = Some menu \<longrightarrow>
        (m_restaurant_id menu \<noteq> r_id r \<longrightarrow>
           create_order state customer_id payload ordered_at =
             (Inl (InvalidArgumentError
                (''menu with id '' @ str_int (oic_menu_id ord) @
                 '' is not in restaurant with id '' @ str_int (r_id r))), state)) \<and>
        (m_restaurant_id menu = r_id r \<and> oic_quantity ord < 1 \<longrightarrow>
           create_order state customer_id payload ordered_at =
             (Inl (InvalidArgumentError
                (''menu with id '' @ str_int (oic_menu_id ord) @
                 '' must have a quantity of at least 1'')), state)) \<and>
        (m_restaurant_id menu = r_id r \<and> 1 \<le> oic_quantity ord \<longrightarrow>
           (\<forall>good oc rest.
              oic_options ord = good @ oc # rest \<and> options_ok state menu good \<longrightarrow>
              (query_option state (ooc_option_id oc) = None \<longrightarrow>
                 create_order state customer_id payload ordered_at =
                   (Inl (NotFoundError
                      (''the option with id '' @ str_int (ooc_option_id oc) @
                       '' not found'')), state)) \<and>
              (\<forall>opt cust.
                 query_option state (ooc_option_id oc) = Some (opt, cust) \<and>
                 c_menu_id cust \<noteq> m_id menu \<longrightarrow>
                 create_order state customer_id payload ordered_at =
                   (Inl (InvalidArgumentError
                      (''the option with id '' @ str_int (ooc_option_id oc) @
                       '' is not in menu with id '' @ str_int (m_id menu))), state))) \<and>
           (options_ok state menu (oic_options ord) \<longrightarrow>
              (\<forall>c. first_missing_required state menu ord = Some c \<longrightarrow>
                 create_order state customer_id payload ordered_at =
                   (Inl (InvalidArgumentError
                      (''menu with id '' @ str_int (m_id menu) @
                       '' requires customization with id '' @ str_int (c_id c))), state)) \<and>
              (first_missing_required state menu ord = None \<longrightarrow>
                 (\<forall>c. first_duplicated_unique state menu ord = Some c \<longrightarrow>
                    create_order state customer_id payload ordered_at =
                      (Inl (InvalidArgumentError
                         (''menu with id '' @ str_int (m_id menu) @
                          '' requires customization with id '' @ str_int (c_id c) @
                          '' to be unique'')), state))))))"
proof -
  note lift = create_order_first_failure [OF r items pre, of "Decimal 0" _ customer_id ordered_at]
  have c1: "find (\<lambda>m. m_id m = oic_menu_id ord) (menus state) = None \<Longrightarrow>
        create_order state customer_id payload ordered_at =
          (Inl (NotFoundError ''menu with id {order.menu_id} not found''), state)"
    by (rule lift) (rule validate_item_missing_menu)
  have c2: "create_order state customer_id payload ordered_at =
             (Inl (InvalidArgumentError
                (''menu with id '' @ str_int (oic_menu_id ord) @
                 '' is not in restaurant with id '' @ str_int (r_id r))), state)"
    if "find (\<lambda>m. m_id m = oic_menu_id ord) (menus state) = Some menu"
      "m_restaurant_id menu \<noteq> r_id r" for menu
    by (rule lift) (rule validate_item_other_restaurant [OF that])
  have c3: "create_order state customer_id payload ordered_at =
             (Inl (InvalidArgumentError
                (''menu with id '' @ str_int (oic_menu_id ord) @
                 '' must have a quantity of at least 1'')), state)"
    if "find (\<lambda>m. m_id m = oic_menu_id ord) (menus state) = Some menu"
      "m_restaurant_id menu = r_id r" "oic_quantity ord < 1" for menu
    by (rule lift) (rule validate_item_quantity_error [OF that])
  have c4a: "create_order state customer_id payload ordered_at =
                   (Inl (NotFoundError
                      (''the option with id '' @ str_int (ooc_option_id oc) @
                       '' not found'')), state)"
    if "find (\<lambda>m. m_id m = oic_menu_id ord) (menus state) = Some menu"
      "m_restaurant_id menu = r_id r" "1 \<le> oic_quantity ord"
      "oic_options ord = good @ oc # rest" "options_ok state menu good"
      "query_option state (ooc_option_id oc) = None" for menu good oc rest
    using validate_item_option_error [OF that(1-5), of "Decimal 0"] that(6)
    by (intro lift) simp
  have c4b: "create_order state customer_id payload ordered_at =
                   (Inl (InvalidArgumentError
                      (''the option with id '' @ str_int (ooc_option_id oc) @
                       '' is not in menu with id '' @ str_int (m_id menu))), state)"
    if "find (\<lambda>m. m_id m = oic_menu_id ord) (menus state) = Some menu"
      "m_restaurant_id menu = r_id r" "1 \<le> oic_quantity ord"
      "oic_options ord = good @ oc # rest" "options_ok state menu good"
      "query_option state (ooc_option_id oc) = Some (opt, cust)"
      "c_menu_id cust \<noteq> m_id menu" for menu good oc rest opt cust
    using validate_item_option_error [OF that(1-5), of "Decimal 0"] that(6,7)
    by (intro lift) blast
  have c5: "create_order state customer_id payload ordered_at =
                   (Inl (InvalidArgumentError
                      (''menu with id '' @ str_int (m_id menu) @
                       '' requires customization with id '' @ str_int (c_id c))), state)"
    if "find (\<lambda>m. m_id m = oic_menu_id ord) (menus state) = Some menu"
      "m_restaurant_id menu = r_id r" "1 \<le> oic_quantity ord"
      "options_ok state menu (oic_options ord)"
      "first_missing_required state menu ord = Some c" for menu c
    by (rule lift) (rule validate_item_required_error [OF that])
  have c6: "create_order state customer_id payload ordered_at =
                      (Inl (InvalidArgumentError
                         (''menu with id '' @ str_int (m_id menu) @
                          '' requires customization with id '' @ str_int (c_id c) @
                          '' to be unique'')), state)"
    if "find (\<lambda>m. m_id m = oic_menu_id ord) (menus state) = Some menu"
      "m_restaurant_id menu = r_id r" "1 \<le> oic_quantity ord"
      "options_ok state menu (oic_options ord)"
      "first_missing_required state menu ord = None"
      "first_duplicated_unique state menu ord = Some c" for menu c
    by (rule lift) (rule validate_item_unique_error [OF that])
  show ?thesis
    apply (intro conjI impI allI)
    subgoal by (rule c1)
    subgoal by (rule c2)
    subgoal by (erule conjE) (rule c3)
    subgoal by (elim conjE) (rule c4a)
    subgoal by (elim conjE) (rule c4b)
    subgoal by (elim conjE) (rule c5)
    subgoal by (elim conjE) (rule c6)
    done
qed

theorem create_order_check_order_witness:
  "get_restaurant ex_state (oc_restaurant_id (ex_payload [ex_item 1 1 [1], ex_item 9 0 []])) =
     Inr ex_restaurant \<and>
   oc_items (ex_payload [ex_item 1 1 [1], ex_item 9 0 []]) =
     [ex_item 1 1 [1]] @ ex_item 9 0 [] # [] \<and>
   \<not> item_invalid ex_state ex_restaurant (ex_item 1 1 [1]) \<and>
   find (\<lambda>m. m_id m = oic_menu_id (ex_item 9 0 [])) (menus ex_state) = None \<and>
   oic_quantity (ex_item 9 0 []) < 1 \<and>
   create_order ex_state 5 (ex_payload [ex_item 1 1 [1], ex_item 9 0 []]) 100 =
     (Inl (NotFoundError ''menu with id {order.menu_id} not found''), ex_state)"
proof -
  have h1: "get_restaurant ex_state
      (oc_restaurant_id (ex_payload [ex_item 1 1 [1], ex_item 9 0 []])) =
      Inr ex_restaurant"
    by code_simp
  have h2: "oc_items (ex_payload [ex_item 1 1 [1], ex_item 9 0 []]) =
      [ex_item 1 1 [1]] @ ex_item 9 0 [] # []"
    by (simp add: ex_payload_def)
  have v: "\<not> item_invalid ex_state ex_restaurant (ex_item 1 1 [1])"
    by code_simp
  then have h3: "\<forall>i \<in> set [ex_item 1 1 [1]]. \<not> item_invalid ex_state ex_restaurant i"
    by simp
  have h4: "find (\<lambda>m. m_id m = oic_menu_id (ex_item 9 0 [])) (menus ex_state) = None"
    by code_simp
  have h5: "oic_quantity (ex_item 9 0 []) < 1"
    by code_simp
  show ?thesis
    using h1 h2 v h4 h5 create_order_check_order [OF h1 h2 h3, of 5 100]
    by blast
qed

text \<open>
  The order stated in claim C9 (quantity before the existence of the menu) is not the one of
  the code: a single line item with quantity 0 and the unknown menu id 9 raises
  \<^verbatim>\<open>NotFoundError\<close> for the menu, not the quantity violation.
\<close>

theorem quantity_not_checked_first_counterexample:
  "oic_quantity (ex_item 9 0 []) < 1 \<and>
   create_order ex_state 5 (ex_payload [ex_item 9 0 []]) 100 =
     (Inl (NotFoundError ''menu with id {order.menu_id} not found''), ex_state)"
  by code_simp

text \<open>
  Claim C6, as the code has it. A payload containing a line item whose menu has a required
  customization with no selected option makes \<^verbatim>\<open>create_order\<close> raise and write
  nothing. When the restaurant exists, all earlier items are valid and the item passes the
  menu, restaurant, quantity and option checks, the error is \<^verbatim>\<open>InvalidArgumentError\<close>
  and its message names the id of the first required customization of the menu without a
  selected option, which is the given one when it is the only one.
\<close>

theorem required_customization_enforced:
  assumes ord: "ord \<in> set (oc_items payload)"
    and menu: "find (\<lambda>m. m_id m = oic_menu_id ord) (menus state) = Some menu"
    and c: "c \<in> set (customizations state)" "c_menu_id c = m_id menu" "c_required c"
    and omitted: "c_id c \<notin> set (selected_customizations state ord)"
  shows
    "(\<exists>e. create_order state customer_id payload ordered_at = (Inl e, state)) \<and>
     (\<forall>r pre post.
        get_restaurant state (oc_restaurant_id payload) = Inr r \<and>
        oc_items payload = pre @ ord # post \<and>
        (\<forall>i \<in> set pre. \<not> item_invalid state r i) \<and>
        m_restaurant_id menu = r_id r \<and> 1 \<le> oic_quantity ord \<and>
        options_ok state menu (oic_options ord) \<longrightarrow>
        (\<exists>c'. first_missing_required state menu ord = Some c' \<and>
           create_order state customer_id payload ordered_at =
             (Inl (InvalidArgumentError
                (''menu with id '' @ str_int (m_id menu) @
                 '' requires customization with id '' @ str_int (c_id c'))), state) \<and>
           ((\<forall>d \<in> set (customizations state).
               c_menu_id d = m_id menu \<and> c_required d \<and>
               c_id d \<notin> set (selected_customizations state ord) \<longrightarrow> c_id d = c_id c) \<longrightarrow>
            c_id c' = c_id c)))"
proof -
  have inv: "item_invalid state r ord" for r
    using menu c omitted by (auto simp: item_invalid_def)
  have fails: "\<exists>e. create_order state customer_id payload ordered_at = (Inl e, state)"
    using ord inv by (rule invalid_item_fails)
  have "first_missing_required state menu ord \<noteq> None"
    unfolding first_missing_required_def find_filter_None
    using c omitted by blast
  then obtain c' where c': "first_missing_required state menu ord = Some c'"
    by blast
  from find_filter_Some [OF c' [unfolded first_missing_required_def]]
  have props: "c' \<in> set (customizations state)" "c_menu_id c' = m_id menu" "c_required c'"
    "c_id c' \<notin> set (selected_customizations state ord)"
    by simp_all
  have named: "create_order state customer_id payload ordered_at =
             (Inl (InvalidArgumentError
                (''menu with id '' @ str_int (m_id menu) @
                 '' requires customization with id '' @ str_int (c_id c'))), state)"
    if "get_restaurant state (oc_restaurant_id payload) = Inr r"
      "oc_items payload = pre @ ord # post"
      "\<forall>i \<in> set pre. \<not> item_invalid state r i"
      "m_restaurant_id menu = r_id r" "1 \<le> oic_quantity ord"
      "options_ok state menu (oic_options ord)" for r pre post
    using that(1-3)
    by (rule create_order_first_failure)
      (rule validate_item_required_error [OF menu that(4-6) c', of "Decimal 0"])
  show ?thesis
    using fails c' named props by blast
qed

text \<open>
  Claim C7, as the code has it. A payload containing a line item that selects more than one
  option of a unique customization of its menu makes \<^verbatim>\<open>create_order\<close> raise and write
  nothing. When the restaurant exists, all earlier items are valid, the item passes the menu,
  restaurant, quantity and option checks and no required customization is missing, the error
  is \<^verbatim>\<open>InvalidArgumentError\<close> and its message names the id of the first unique
  customization of the menu selected more than once, which is the given one when it is the
  only one.
\<close>

theorem unique_customization_enforced:
  assumes ord: "ord \<in> set (oc_items payload)"
    and menu: "find (\<lambda>m. m_id m = oic_menu_id ord) (menus state) = Some menu"
    and c: "c \<in> set (customizations state)" "c_menu_id c = m_id menu" "c_unique c"
    and twice: "count_list (selected_customizations state ord) (c_id c) > 1"
  shows
    "(\<exists>e. create_order state customer_id payload ordered_at = (Inl e, state)) \<and>
     (\<forall>r pre post.
        get_restaurant state (oc_restaurant_id payload) = Inr r \<and>
        oc_items payload = pre @ ord # post \<and>
        (\<forall>i \<in> set pre. \<not> item_invalid state r i) \<and>
        m_restaurant_id menu = r_id r \<and> 1 \<le> oic_quantity ord \<and>
        options_ok state menu (oic_options ord) \<and>
        first_missing_required state menu ord = None \<longrightarrow>
        (\<exists>c'. first_duplicated_unique state menu ord = Some c' \<and>
           create_order state customer_id payload ordered_at =
             (Inl (InvalidArgumentError
                (''menu with id '' @ str_int (m_id menu) @
                 '' requires customization with id '' @ str_int (c_id c') @
                 '' to be unique'')), state) \<and>
           ((\<forall>d \<in> set (customizations state).
               c_menu_id d = m_id menu \<and> c_unique d \<and>
               count_list (selected_customizations state ord) (c_id d) > 1 \<longrightarrow>
               c_id d = c_id c) \<longrightarrow>
            c_id c' = c_id c)))"
proof -
  have inv: "item_invalid state r ord" for r
    using menu c twice by (auto simp: item_invalid_def)
  have fails: "\<exists>e. create_order state customer_id payload ordered_at = (Inl e, state)"
    using ord inv by (rule invalid_item_fails)
  have "first_duplicated_unique state menu ord \<noteq> None"
    unfolding first_duplicated_unique_def find_filter_None
    using c twice by blast
  then obtain c' where c': "first_duplicated_unique state menu ord = Some c'"
    by blast
  from find_filter_Some [OF c' [unfolded first_duplicated_unique_def]]
  have props: "c' \<in> set (customizations state)" "c_menu_id c' = m_id menu" "c_unique c'"
    "count_list (selected_customizations state ord) (c_id c') > 1"
    by simp_all
  have named: "create_order state customer_id payload ordered_at =
             (Inl (InvalidArgumentError
                (''menu with id '' @ str_int (m_id menu) @
                 '' requires customization with id '' @ str_int (c_id c') @
                 '' to be unique'')), state)"
    if "get_restaurant state (oc_restaurant_id payload) = Inr r"
      "oc_items payload = pre @ ord # post"
      "\<forall>i \<in> set pre. \<not> item_invalid state r i"
      "m_restaurant_id menu = r_id r" "1 \<le> oic_quantity ord"
      "options_ok state menu (oic_options ord)"
      "first_missing_required state menu ord = None" for r pre post
    using that(1-3)
    by (rule create_order_first_failure)
      (rule validate_item_unique_error [OF menu that(4-7) c', of "Decimal 0"])
  show ?thesis
    using fails c' named props by blast
qed


text \<open>
  Claim C6 as stated fails when an earlier check fails: the line item below omits the
  required size customization and selects the unknown option 99, and the error is
  \<^verbatim>\<open>NotFoundError\<close> for the option.
\<close>

theorem required_omitted_other_error_counterexample:
  "ex_size \<in> set (customizations ex_state) \<and> c_required ex_size \<and>
   1 \<notin> set (selected_customizations ex_state (ex_item 1 1 [99])) \<and>
   create_order ex_state 5 (ex_payload [ex_item 1 1 [99]]) 100 =
     (Inl (NotFoundError ''the option with id 99 not found''), ex_state)"
  by code_simp

text \<open>
  Claim C7 as stated fails when an earlier check fails: the line item below selects the
  cheese option twice and omits the required size customization, and the message names
  customization 1, the missing required one, not the duplicated customization 2.
\<close>

theorem duplicate_unique_other_error_counterexample:
  "ex_cheese \<in> set (customizations ex_state) \<and> c_unique ex_cheese \<and>
   count_list (selected_customizations ex_state (ex_item 1 1 [2, 2])) 2 = 2 \<and>
   create_order ex_state 5 (ex_payload [ex_item 1 1 [2, 2]]) 100 =
     (Inl (InvalidArgumentError ''menu with id 1 requires customization with id 1''),
      ex_state)"
  by code_simp


theorem required_customization_enforced_witness:
  "ex_item 1 1 [2] \<in> set (oc_items (ex_payload [ex_item 1 1 [2]])) \<and>
   find (\<lambda>m. m_id m = oic_menu_id (ex_item 1 1 [2])) (menus ex_state) = Some ex_menu \<and>
   ex_size \<in> set (customizations ex_state) \<and> c_menu_id ex_size = m_id ex_menu \<and>
   c_required ex_size \<and>
   c_id ex_size \<notin> set (selected_customizations ex_state (ex_item 1 1 [2])) \<and>
   (\<exists>c'. first_missing_required ex_state ex_menu (ex_item 1 1 [2]) = Some c' \<and>
      create_order ex_state 5 (ex_payload [ex_item 1 1 [2]]) 100 =
        (Inl (InvalidArgumentError
           (''menu with id '' @ str_int (m_id ex_menu) @
            '' requires customization with id '' @ str_int (c_id c'))), ex_state) \<and>
      c_id c' = c_id ex_size)"
proof -
  have h1: "ex_item 1 1 [2] \<in> set (oc_items (ex_payload [ex_item 1 1 [2]]))"
    by (simp add: ex_payload_def)
  have h2: "find (\<lambda>m. m_id m = oic_menu_id (ex_item 1 1 [2])) (menus ex_state) = Some ex_menu"
    by code_simp
  have h3: "ex_size \<in> set (customizations ex_state)"
    by code_simp
  have h4: "c_menu_id ex_size = m_id ex_menu"
    by code_simp
  have h5: "c_required ex_size"
    by code_simp
  have h6: "c_id ex_size \<notin> set (selected_customizations ex_state (ex_item 1 1 [2]))"
    by code_simp
  have g1: "get_restaurant ex_state (oc_restaurant_id (ex_payload [ex_item 1 1 [2]])) =
      Inr ex_restaurant"
    by code_simp
  have g2: "oc_items (ex_payload [ex_item 1 1 [2]]) = [] @ ex_item 1 1 [2] # []"
    by (simp add: ex_payload_def)
  have g3: "\<forall>i \<in> set []. \<not> item_invalid ex_state ex_restaurant i"
    by simp
  have g4: "m_restaurant_id ex_menu = r_id ex_restaurant"
    by code_simp
  have g5: "1 \<le> oic_quantity (ex_item 1 1 [2])"
    by code_simp
  have g6: "options_ok ex_state ex_menu (oic_options (ex_item 1 1 [2]))"
    by code_simp
  have g7: "\<forall>d \<in> set (customizations ex_state).
      c_menu_id d = m_id ex_menu \<and> c_required d \<and>
      c_id d \<notin> set (selected_customizations ex_state (ex_item 1 1 [2])) \<longrightarrow>
      c_id d = c_id ex_size"
    by code_simp
  show ?thesis
    using h1 h2 h3 h4 h5 h6 g1 g2 g3 g4 g5 g6 g7
      required_customization_enforced [OF h1 h2 h3 h4 h5 h6, of 5 100]
    by blast
qed

theorem unique_customization_enforced_witness:
  "ex_item 1 1 [1, 2, 2] \<in> set (oc_items (ex_payload [ex_item 1 1 [1, 2, 2]])) \<and>
   find (\<lambda>m. m_id m = oic_menu_id (ex_item 1 1 [1, 2, 2])) (menus ex_state) = Some ex_menu \<and>
   ex_cheese \<in> set (customizations ex_state) \<and> c_menu_id ex_cheese = m_id ex_menu \<and>
   c_unique ex_cheese \<and>
   count_list (selected_customizations ex_state (ex_item 1 1 [1, 2, 2])) (c_id ex_cheese) > 1 \<and>
   (\<exists>c'. first_duplicated_unique ex_state ex_menu (ex_item 1 1 [1, 2, 2]) = Some c' \<and>
      create_order ex_state 5 (ex_payload [ex_item 1 1 [1, 2, 2]]) 100 =
        (Inl (InvalidArgumentError
           (''menu with id '' @ str_int (m_id ex_menu) @
            '' requires customization with id '' @ str_int (c_id c') @
            '' to be unique'')), ex_state) \<and>
      c_id c' = c_id ex_cheese)"
proof -
  have h1: "ex_item 1 1 [1, 2, 2] \<in> set (oc_items (ex_payload [ex_item 1 1 [1, 2, 2]]))"
    by (simp add: ex_payload_def)
  have h2: "find (\<lambda>m. m_id m = oic_menu_id (ex_item 1 1 [1, 2, 2])) (menus ex_state) =
      Some ex_menu"
    by code_simp
  have h3: "ex_cheese \<in> set (customizations ex_state)"
    by code_simp
  have h4: "c_menu_id ex_cheese = m_id ex_menu"
    by code_simp
  have h5: "c_unique ex_cheese"
    by code_simp
  have h6: "count_list (selected_customizations ex_state (ex_item 1 1 [1, 2, 2]))
      (c_id ex_cheese) > 1"
    by code_simp
  have g1: "get_restaurant ex_state (oc_restaurant_id (ex_payload [ex_item 1 1 [1, 2, 2]])) =
      Inr ex_restaurant"
    by code_simp
  have g2: "oc_items (ex_payload [ex_item 1 1 [1, 2, 2]]) = [] @ ex_item 1 1 [1, 2, 2] # []"
    by (simp add: ex_payload_def)
  have g3: "\<forall>i \<in> set []. \<not> item_invalid ex_state ex_restaurant i"
    by simp
  have g4: "m_restaurant_id ex_menu = r_id ex_restaurant"
    by code_simp
  have g5: "1 \<le> oic_quantity (ex_item 1 1 [1, 2, 2])"
    by code_simp
  have g6: "options_ok ex_state ex_menu (oic_options (ex_item 1 1 [1, 2, 2]))"
    by code_simp
  have g7: "first_missing_required ex_state ex_menu (ex_item 1 1 [1, 2, 2]) = None"
    by code_simp
  have g8: "\<forall>d \<in> set (customizations ex_state).
      c_menu_id d = m_id ex_menu \<and> c_unique d \<and>
      count_list (selected_customizations ex_state (ex_item 1 1 [1, 2, 2])) (c_id d) > 1 \<longrightarrow>
      c_id d = c_id ex_cheese"
    by code_simp
  show ?thesis
    using h1 h2 h3 h4 h5 h6 g1 g2 g3 g4 g5 g6 g7 g8
      unique_customization_enforced [OF h1 h2 h3 h4 h5 h6, of 5 100]
    by blast
qed

section \<open>Properties of sequences of calls\<close>

subsection \<open>Fresh ids and status updates\<close>

lemma fold_max_ge: "(a::int) \<le> fold max xs a"
proof (induction xs arbitrary: a)
  case Nil
  then show ?case by simp
next
  case (Cons x xs)
  have "a \<le> max x a" by simp
  also have "max x a \<le> fold max xs (max x a)" by (rule Cons.IH)
  finally show ?case by simp
qed

lemma fold_max_mem: "x \<in> set xs \<Longrightarrow> (x::int) \<le> fold max xs a"
proof (induction xs arbitrary: a)
  case Nil
  then show ?case by simp
next
  case (Cons y xs)
  show ?case
  proof (cases "x = y")
    case True
    have "x \<le> max y a" using True by simp
    also have "max y a \<le> fold max xs (max y a)" by (rule fold_max_ge)
    finally show ?thesis by simp
  next
    case False
    with Cons.prems have "x \<in> set xs" by simp
    from Cons.IH [OF this] show ?thesis by simp
  qed
qed

lemma fresh_id_notin: "fresh_id ids \<notin> set ids"
proof
  assume "fresh_id ids \<in> set ids"
  from fold_max_mem [OF this, of 0] show False by (simp add: fresh_id_def)
qed

lemma map_id_set_status: "map ord_id (set_status oid flag os) = map ord_id os"
  by (induction os) simp_all

lemma ids_set_status: "ord_id ` set (set_status oid flag os) = ord_id ` set os"
  using map_id_set_status [of oid flag os] by (metis set_map)

lemma set_set_status:
  "distinct (map ord_id os) \<Longrightarrow> ord \<in> set os \<Longrightarrow>
   set (set_status (ord_id ord) flag os) = insert (ord\<lparr>ord_status := flag\<rparr>) (set os - {ord})"
proof (induction os)
  case Nil
  then show ?case by simp
next
  case (Cons x os)
  show ?case
  proof (cases "ord_id x = ord_id ord")
    case True
    with Cons.prems have "ord = x" by (auto simp: image_iff)
    moreover from Cons.prems have "x \<notin> set os" by auto
    ultimately show ?thesis by auto
  next
    case False
    with Cons.prems have "ord \<in> set os" "ord \<noteq> x" by auto
    with Cons show ?thesis using False by auto
  qed
qed

lemma find_set_status:
  "find (\<lambda>x. ord_id x = oid) (set_status oid flag os) =
   map_option (\<lambda>x. x\<lparr>ord_status := flag\<rparr>) (find (\<lambda>x. ord_id x = oid) os)"
  by (induction os) simp_all

lemma find_Some_mem: "find P xs = Some x \<Longrightarrow> x \<in> set xs \<and> P x"
  by (induction xs) (auto split: if_splits)

lemma find_append_new:
  "length (filter P xs) = 0 \<Longrightarrow> P y \<Longrightarrow> find P (xs @ [y]) = Some y"
  by (induction xs) (auto split: if_splits)

lemma find_count_one: "length (filter P xs) = 1 \<Longrightarrow> find P xs \<noteq> None"
proof
  assume "length (filter P xs) = 1" and "find P xs = None"
  from this(2) have "filter P xs = []"
    by (simp add: find_None_iff filter_empty_conv)
  with \<open>length (filter P xs) = 1\<close> show False by simp
qed

lemma other_order_id:
  "distinct (map ord_id os) \<Longrightarrow> ord \<in> set os \<Longrightarrow> x \<in> set os - {ord} \<Longrightarrow>
   ord_id x \<noteq> ord_id ord"
  by (auto simp: distinct_map inj_on_def)

subsection \<open>The invariant of the store is preserved\<close>

lemmas count_defs = n_cancelled_def n_preparing_def n_ready_def n_settled_def

lemma history_ok_other:
  assumes "ord_id x \<noteq> oid"
    and "cancelled_orders state' = cancelled_orders state @ cs" "\<forall>c \<in> set cs. co_order_id c = oid"
    and "preparing_orders state' = preparing_orders state @ ps" "\<forall>c \<in> set ps. po_order_id c = oid"
    and "ready_orders state' = ready_orders state @ rs" "\<forall>c \<in> set rs. ro_order_id c = oid"
    and "settled_orders state' = settled_orders state @ ss" "\<forall>c \<in> set ss. so_order_id c = oid"
  shows "history_ok state' x = history_ok state x"
proof -
  have "filter (\<lambda>c. co_order_id c = ord_id x) cs = []"
    "filter (\<lambda>c. po_order_id c = ord_id x) ps = []"
    "filter (\<lambda>c. ro_order_id c = ord_id x) rs = []"
    "filter (\<lambda>c. so_order_id c = ord_id x) ss = []"
    using assms by (auto simp: filter_empty_conv)
  then have "n_cancelled state' (ord_id x) = n_cancelled state (ord_id x)"
    "n_preparing state' (ord_id x) = n_preparing state (ord_id x)"
    "n_ready state' (ord_id x) = n_ready state (ord_id x)"
    "n_settled state' (ord_id x) = n_settled state (ord_id x)"
    using assms(2,4,6,8) by (simp_all add: count_defs)
  then show ?thesis
    by (cases "ord_status x") (simp_all add: history_ok_def)
qed

lemma status_step_ok:
  assumes ok: "store_ok state" and mem: "ord \<in> set (orders state)"
    and os: "orders state' = set_status (ord_id ord) flag (orders state)"
    and cs: "cancelled_orders state' = cancelled_orders state @ cs"
      "\<forall>c \<in> set cs. co_order_id c = ord_id ord"
    and ps: "preparing_orders state' = preparing_orders state @ ps"
      "\<forall>c \<in> set ps. po_order_id c = ord_id ord"
    and rs: "ready_orders state' = ready_orders state @ rs"
      "\<forall>c \<in> set rs. ro_order_id c = ord_id ord"
    and ss: "settled_orders state' = settled_orders state @ ss"
      "\<forall>c \<in> set ss. so_order_id c = ord_id ord"
    and new: "history_ok state' (ord\<lparr>ord_status := flag\<rparr>)"
  shows "store_ok state'"
proof -
  from ok have d: "distinct (map ord_id (orders state))" by (simp add: store_ok_def)
  have orders: "set (orders state') =
      insert (ord\<lparr>ord_status := flag\<rparr>) (set (orders state) - {ord})"
    using set_set_status [OF d mem] by (simp add: os)
  have ids: "ord_id ` set (orders state') = ord_id ` set (orders state)"
    by (simp add: os ids_set_status)
  have own: "ord_id ord \<in> ord_id ` set (orders state)"
    using mem by simp
  have h: "history_ok state' x" if "x \<in> set (orders state')" for x
  proof (cases "x = ord\<lparr>ord_status := flag\<rparr>")
    case True
    with new show ?thesis by simp
  next
    case False
    with that orders have x: "x \<in> set (orders state) - {ord}" by auto
    from other_order_id [OF d mem x] have "ord_id x \<noteq> ord_id ord" .
    then have "history_ok state' x = history_ok state x"
      using cs ps rs ss by (rule history_ok_other)
    with ok x show ?thesis by (simp add: store_ok_def)
  qed
  show ?thesis
    unfolding store_ok_def
  proof (intro conjI ballI)
    show "distinct (map ord_id (orders state'))"
      using d by (simp add: os map_id_set_status)
    show "history_ok state' x" if "x \<in> set (orders state')" for x by (rule h [OF that])
    show "co_order_id ` set (cancelled_orders state') \<subseteq> ord_id ` set (orders state')"
      unfolding ids using ok own cs by (auto simp: store_ok_def)
    show "po_order_id ` set (preparing_orders state') \<subseteq> ord_id ` set (orders state')"
      unfolding ids using ok own ps by (auto simp: store_ok_def)
    show "ro_order_id ` set (ready_orders state') \<subseteq> ord_id ` set (orders state')"
      unfolding ids using ok own rs by (auto simp: store_ok_def)
    show "so_order_id ` set (settled_orders state') \<subseteq> ord_id ` set (orders state')"
      unfolding ids using ok own ss by (auto simp: store_ok_def)
  qed
qed

lemma prepare_order_ok:
  assumes ok: "store_ok state" and mem: "ord \<in> set (orders state)"
    and st: "ord_status ord = ORDERED"
  shows "store_ok (prepare_order state ord now)"
proof (rule status_step_ok [OF ok mem, where flag = PREPARING and cs = "[]" and rs = "[]"
      and ss = "[]" and ps = "[\<lparr>po_order_id = ord_id ord, po_prepared_at = now\<rparr>]"])
  from ok mem have "history_ok state ord" by (simp add: store_ok_def)
  with st show "history_ok (prepare_order state ord now) (ord\<lparr>ord_status := PREPARING\<rparr>)"
    by (simp add: history_ok_def count_defs prepare_order_def)
qed (simp_all add: prepare_order_def)

lemma ready_order_ok:
  assumes ok: "store_ok state" and mem: "ord \<in> set (orders state)"
    and st: "ord_status ord = PREPARING"
  shows "store_ok (ready_order state ord now)"
proof (rule status_step_ok [OF ok mem, where flag = READY and cs = "[]" and ps = "[]"
      and ss = "[]" and rs = "[\<lparr>ro_order_id = ord_id ord, ro_ready_at = now\<rparr>]"])
  from ok mem have "history_ok state ord" by (simp add: store_ok_def)
  with st show "history_ok (ready_order state ord now) (ord\<lparr>ord_status := READY\<rparr>)"
    by (simp add: history_ok_def count_defs ready_order_def)
qed (simp_all add: ready_order_def)

lemma settle_order_ok:
  assumes ok: "store_ok state" and mem: "ord \<in> set (orders state)"
    and st: "ord_status ord = READY"
  shows "store_ok (settle_order state ord now)"
proof (rule status_step_ok [OF ok mem, where flag = SETTLED and cs = "[]" and ps = "[]"
      and rs = "[]" and ss = "[\<lparr>so_order_id = ord_id ord, so_settled_at = now\<rparr>]"])
  from ok mem have "history_ok state ord" by (simp add: store_ok_def)
  with st show "history_ok (settle_order state ord now) (ord\<lparr>ord_status := SETTLED\<rparr>)"
    by (simp add: history_ok_def count_defs settle_order_def)
qed (simp_all add: settle_order_def)

lemma cancel_order_ok:
  assumes ok: "store_ok state" and mem: "ord \<in> set (orders state)"
    and st: "ord_status ord = ORDERED \<or> ord_status ord = PREPARING"
  shows "store_ok (cancel_order state ord now by reason)"
proof (rule status_step_ok [OF ok mem, where flag = CANCELLED and rs = "[]" and ps = "[]"
      and ss = "[]" and cs = "[\<lparr>co_order_id = ord_id ord, co_cancelled_time = now,
                co_cancelled_by = by, co_reason = reason\<rparr>]"])
  from ok mem have "history_ok state ord" by (simp add: store_ok_def)
  with st show "history_ok (cancel_order state ord now by reason) (ord\<lparr>ord_status := CANCELLED\<rparr>)"
    by (auto simp: history_ok_def count_defs cancel_order_def)
qed (simp_all add: cancel_order_def)

lemma get_order_with_validation_mem:
  "get_order_with_validation state user_id role order_id = Inr ord \<Longrightarrow>
   ord \<in> set (orders state) \<and> ord_id ord = order_id \<and>
   find (\<lambda>x. ord_id x = order_id) (orders state) = Some ord"
  by (auto simp: get_order_with_validation_def
      split: option.splits Role.splits if_splits dest: find_Some_mem)

lemma transition_ok:
  assumes "store_ok state" and "ord \<in> set (orders state)"
  shows "store_ok (snd (transition state ord now role (ord_status ord) status))"
  using assms
  by (cases role; cases "ord_status ord"; cases status)
    (simp_all add: prepare_order_ok ready_order_ok settle_order_ok cancel_order_ok)

lemma update_order_status_ok:
  assumes "store_ok state"
  shows "store_ok (snd (update_order_status state user_id role order_id status now))"
proof (cases "get_order_with_validation state user_id role order_id")
  case (Inl e)
  with assms show ?thesis by (simp add: update_order_status_def)
next
  case (Inr ord)
  from get_order_with_validation_mem [OF Inr] have "ord \<in> set (orders state)" by simp
  from transition_ok [OF assms this] show ?thesis
    using Inr by (simp add: update_order_status_def)
qed

lemma persist_options_tables:
  "cancelled_orders (persist_options state i opts) = cancelled_orders state"
  "preparing_orders (persist_options state i opts) = preparing_orders state"
  "ready_orders (persist_options state i opts) = ready_orders state"
  "settled_orders (persist_options state i opts) = settled_orders state"
  by (induction opts arbitrary: state) simp_all

lemma persist_items_tables:
  "cancelled_orders (persist_items state oid items) = cancelled_orders state"
  "preparing_orders (persist_items state oid items) = preparing_orders state"
  "ready_orders (persist_items state oid items) = ready_orders state"
  "settled_orders (persist_items state oid items) = settled_orders state"
  by (induction items arbitrary: state) (simp_all add: Let_def persist_options_tables)

lemma store_ok_cong:
  assumes "orders state' = orders state" "cancelled_orders state' = cancelled_orders state"
    "preparing_orders state' = preparing_orders state" "ready_orders state' = ready_orders state"
    "settled_orders state' = settled_orders state"
  shows "store_ok state' = store_ok state"
proof -
  have "history_ok state' x = history_ok state x" for x
    by (cases "ord_status x") (simp_all add: history_ok_def count_defs assms)
  then show ?thesis by (simp add: store_ok_def assms)
qed

lemma no_satellite_of_fresh:
  assumes ok: "store_ok state" and nin: "i \<notin> ord_id ` set (orders state)"
  shows "n_cancelled state i = 0" "n_preparing state i = 0"
    "n_ready state i = 0" "n_settled state i = 0"
proof -
  from ok have sub:
    "co_order_id ` set (cancelled_orders state) \<subseteq> ord_id ` set (orders state)"
    "po_order_id ` set (preparing_orders state) \<subseteq> ord_id ` set (orders state)"
    "ro_order_id ` set (ready_orders state) \<subseteq> ord_id ` set (orders state)"
    "so_order_id ` set (settled_orders state) \<subseteq> ord_id ` set (orders state)"
    by (simp_all add: store_ok_def)
  have "\<forall>c \<in> set (cancelled_orders state). co_order_id c \<noteq> i"
    using sub(1) nin by blast
  then show "n_cancelled state i = 0"
    by (simp add: n_cancelled_def filter_empty_conv)
  have "\<forall>c \<in> set (preparing_orders state). po_order_id c \<noteq> i"
    using sub(2) nin by blast
  then show "n_preparing state i = 0"
    by (simp add: n_preparing_def filter_empty_conv)
  have "\<forall>c \<in> set (ready_orders state). ro_order_id c \<noteq> i"
    using sub(3) nin by blast
  then show "n_ready state i = 0"
    by (simp add: n_ready_def filter_empty_conv)
  have "\<forall>c \<in> set (settled_orders state). so_order_id c \<noteq> i"
    using sub(4) nin by blast
  then show "n_settled state i = 0"
    by (simp add: n_settled_def filter_empty_conv)
qed

lemma add_order_ok:
  assumes ok: "store_ok state" and st: "ord_status new = ORDERED"
    and fresh: "ord_id new = fresh_id (map ord_id (orders state))"
  shows "store_ok (state\<lparr>orders := orders state @ [new]\<rparr>)"
proof -
  let ?s = "state\<lparr>orders := orders state @ [new]\<rparr>"
  have nin: "ord_id new \<notin> ord_id ` set (orders state)"
    using fresh_id_notin [of "map ord_id (orders state)"] fresh by simp
  have cnt: "n_cancelled ?s i = n_cancelled state i" "n_preparing ?s i = n_preparing state i"
    "n_ready ?s i = n_ready state i" "n_settled ?s i = n_settled state i" for i
    by (simp_all add: count_defs)
  have old: "history_ok ?s x = history_ok state x" for x
    by (cases "ord_status x") (simp_all add: history_ok_def cnt)
  have new: "history_ok ?s new"
    using st no_satellite_of_fresh [OF ok nin] by (simp add: history_ok_def cnt)
  from ok have d: "distinct (map ord_id (orders state))"
    and h: "\<forall>x \<in> set (orders state). history_ok state x"
    and sub:
    "co_order_id ` set (cancelled_orders state) \<subseteq> ord_id ` set (orders state)"
    "po_order_id ` set (preparing_orders state) \<subseteq> ord_id ` set (orders state)"
    "ro_order_id ` set (ready_orders state) \<subseteq> ord_id ` set (orders state)"
    "so_order_id ` set (settled_orders state) \<subseteq> ord_id ` set (orders state)"
    by (simp_all add: store_ok_def)
  show ?thesis
    unfolding store_ok_def
  proof (intro conjI ballI)
    show "distinct (map ord_id (orders ?s))"
      using d nin by simp
    show "history_ok ?s x" if "x \<in> set (orders ?s)" for x
    proof (cases "x = new")
      case True
      with new show ?thesis by simp
    next
      case False
      with that have "x \<in> set (orders state)" by simp
      with h old show ?thesis by simp
    qed
    show "co_order_id ` set (cancelled_orders ?s) \<subseteq> ord_id ` set (orders ?s)"
      using sub(1) by auto
    show "po_order_id ` set (preparing_orders ?s) \<subseteq> ord_id ` set (orders ?s)"
      using sub(2) by auto
    show "ro_order_id ` set (ready_orders ?s) \<subseteq> ord_id ` set (orders ?s)"
      using sub(3) by auto
    show "so_order_id ` set (settled_orders ?s) \<subseteq> ord_id ` set (orders ?s)"
      using sub(4) by auto
  qed
qed

lemma create_order_ok:
  assumes "store_ok state"
  shows "store_ok (snd (create_order state customer_id payload ordered_at))"
proof (cases "get_restaurant state (oc_restaurant_id payload)")
  case (Inl e)
  with assms show ?thesis by (simp add: create_order_def)
next
  case (Inr r)
  show ?thesis
  proof (cases "validate_items state r (Decimal 0) (oc_items payload)")
    case (Inl e)
    with Inr assms show ?thesis by (simp add: create_order_def)
  next
    case inr: (Inr price_paid)
    let ?new = "\<lparr>ord_id = fresh_id (map ord_id (orders state)), ord_customer_id = customer_id,
                 ord_restaurant_id = r_id r, ord_ordered_at = ordered_at,
                 ord_price_paid = price_paid, ord_status = ORDERED\<rparr>"
    have "store_ok (state\<lparr>orders := orders state @ [?new]\<rparr>)"
      by (rule add_order_ok [OF assms]) simp_all
    moreover have "store_ok (persist_items s i items) = store_ok s" for s i items
      by (rule store_ok_cong) (simp_all add: persist_items_orders persist_items_tables)
    ultimately show ?thesis
      using Inr inr by (simp add: create_order_def Let_def)
  qed
qed

lemma handle_ok: "store_ok state \<Longrightarrow> store_ok (handle state request)"
  by (cases request) (simp_all add: create_order_ok update_order_status_ok)

lemma run_ok: "store_ok state \<Longrightarrow> store_ok (run state requests)"
  unfolding run_def by (induction requests arbitrary: state) (simp_all add: handle_ok)

lemma no_orders_ok: "no_orders state \<Longrightarrow> store_ok state"
  by (simp add: no_orders_def store_ok_def)

lemma history_ok_consistent: "history_ok state x \<Longrightarrow> status_consistent state x"
  by (cases "ord_status x") (simp_all add: history_ok_def status_consistent_def)

lemma store_ok_consistent: "store_ok state \<Longrightarrow> consistent state"
  by (simp add: store_ok_def consistent_def history_ok_consistent)

lemma consistent_projection:
  assumes "status_consistent state x"
  shows "\<exists>payload. get_status_no_validation state x = Inr payload"
proof (cases "ord_status x")
  case ORDERED
  then show ?thesis by (simp add: get_status_no_validation_def)
next
  case PREPARING
  with assms have "find (\<lambda>p. po_order_id p = ord_id x) (preparing_orders state) \<noteq> None"
    by (intro find_count_one) (simp add: status_consistent_def n_preparing_def)
  with PREPARING show ?thesis by (auto simp: get_status_no_validation_def)
next
  case READY
  with assms have "find (\<lambda>p. ro_order_id p = ord_id x) (ready_orders state) \<noteq> None"
    by (intro find_count_one) (simp add: status_consistent_def n_ready_def)
  with READY show ?thesis by (auto simp: get_status_no_validation_def)
next
  case SETTLED
  with assms have "find (\<lambda>p. so_order_id p = ord_id x) (settled_orders state) \<noteq> None"
    by (intro find_count_one) (simp add: status_consistent_def n_settled_def)
  with SETTLED show ?thesis by (auto simp: get_status_no_validation_def)
next
  case CANCELLED
  with assms have "find (\<lambda>p. co_order_id p = ord_id x) (cancelled_orders state) \<noteq> None"
    by (intro find_count_one) (simp add: status_consistent_def n_cancelled_def)
  with CANCELLED show ?thesis by (auto simp: get_status_no_validation_def)
qed

subsection \<open>Status projection on reachable stores\<close>

lemma validation_error_kind:
  "get_order_with_validation state user_id role order_id \<noteq> Inl (InternalServerError msg)"
  by (simp add: get_order_with_validation_def split: option.splits Role.splits)

lemma resolved_after_status:
  assumes "find (\<lambda>x. ord_id x = ord_id ord) (orders state) = Some ord"
    and "orders state' = set_status (ord_id ord) flag (orders state)"
    and "get_order_with_validation state' user_id role (ord_id ord) = Inr ord'"
  shows "ord' = ord\<lparr>ord_status := flag\<rparr>"
proof -
  from get_order_with_validation_mem [OF assms(3)]
  have "find (\<lambda>x. ord_id x = ord_id ord) (orders state') = Some ord'" by simp
  then show ?thesis
    by (simp add: assms(1,2) find_set_status)
qed

lemma prepare_order_projection:
  assumes ok: "store_ok state" and mem: "ord \<in> set (orders state)"
    and st: "ord_status ord = ORDERED"
  shows "get_status_no_validation (prepare_order state ord now) (ord\<lparr>ord_status := PREPARING\<rparr>) =
           Inr (PreparingOrderSchema now)"
proof -
  from ok mem have "history_ok state ord" by (simp add: store_ok_def)
  with st have "length (filter (\<lambda>p. po_order_id p = ord_id ord) (preparing_orders state)) = 0"
    by (simp add: history_ok_def n_preparing_def)
  from find_append_new [OF this, of "\<lparr>po_order_id = ord_id ord, po_prepared_at = now\<rparr>"]
  show ?thesis
    by (simp add: get_status_no_validation_def prepare_order_def)
qed

lemma ready_order_projection:
  assumes ok: "store_ok state" and mem: "ord \<in> set (orders state)"
    and st: "ord_status ord = PREPARING"
  shows "get_status_no_validation (ready_order state ord now) (ord\<lparr>ord_status := READY\<rparr>) =
           Inr (ReadyOrderSchema now)"
proof -
  from ok mem have "history_ok state ord" by (simp add: store_ok_def)
  with st have "length (filter (\<lambda>p. ro_order_id p = ord_id ord) (ready_orders state)) = 0"
    by (simp add: history_ok_def n_ready_def)
  from find_append_new [OF this, of "\<lparr>ro_order_id = ord_id ord, ro_ready_at = now\<rparr>"]
  show ?thesis
    by (simp add: get_status_no_validation_def ready_order_def)
qed

lemma settle_order_projection:
  assumes ok: "store_ok state" and mem: "ord \<in> set (orders state)"
    and st: "ord_status ord = READY"
  shows "get_status_no_validation (settle_order state ord now) (ord\<lparr>ord_status := SETTLED\<rparr>) =
           Inr (SettledOrderSchema now)"
proof -
  from ok mem have "history_ok state ord" by (simp add: store_ok_def)
  with st have "length (filter (\<lambda>p. so_order_id p = ord_id ord) (settled_orders state)) = 0"
    by (simp add: history_ok_def n_settled_def)
  from find_append_new [OF this, of "\<lparr>so_order_id = ord_id ord, so_settled_at = now\<rparr>"]
  show ?thesis
    by (simp add: get_status_no_validation_def settle_order_def)
qed

lemma cancel_order_projection:
  assumes ok: "store_ok state" and mem: "ord \<in> set (orders state)"
    and st: "ord_status ord = ORDERED \<or> ord_status ord = PREPARING"
  shows "get_status_no_validation (cancel_order state ord now by reason)
           (ord\<lparr>ord_status := CANCELLED\<rparr>) =
           Inr (CancelledOrderSchema by now reason)"
proof -
  from ok mem have "history_ok state ord" by (simp add: store_ok_def)
  with st have "length (filter (\<lambda>p. co_order_id p = ord_id ord) (cancelled_orders state)) = 0"
    by (auto simp: history_ok_def n_cancelled_def)
  from find_append_new [OF this, of "\<lparr>co_order_id = ord_id ord, co_cancelled_time = now,
                co_cancelled_by = by, co_reason = reason\<rparr>"]
  show ?thesis
    by (simp add: get_status_no_validation_def cancel_order_def)
qed

lemma transition_round_trip:
  assumes ok: "store_ok state" and mem: "ord \<in> set (orders state)"
    and f: "find (\<lambda>x. ord_id x = ord_id ord) (orders state) = Some ord"
    and tr: "transition state ord now role (ord_status ord) status = (Inr (), state')"
    and v: "get_order_with_validation state' user_id' role' (ord_id ord) = Inr ord'"
  shows "get_status_no_validation state' ord' = Inr (written_status role status now) \<and>
         satellite_written state state' (ord_id ord) role status now"
proof -
  consider
    (cancel) reason where "status = CancelledOrderUpdate reason"
      "ord_status ord = ORDERED \<or> ord_status ord = PREPARING"
      "state' = cancel_order state ord now (cancelled_by role) reason"
  | (settle) "status = SettledOrderUpdate" "ord_status ord = READY"
      "state' = settle_order state ord now"
  | (prepare) "status = PreparingOrderUpdate" "ord_status ord = ORDERED"
      "state' = prepare_order state ord now"
  | (ready) "status = ReadyOrderUpdate" "ord_status ord = PREPARING"
      "state' = ready_order state ord now"
    using tr
    by (cases role; cases "ord_status ord"; cases status) (simp_all add: cancelled_by_def)
  then show ?thesis
  proof cases
    case cancel
    have "orders state' = set_status (ord_id ord) CANCELLED (orders state)"
      by (simp add: cancel cancel_order_def)
    from resolved_after_status [OF f this v] have "ord' = ord\<lparr>ord_status := CANCELLED\<rparr>" .
    with cancel_order_projection [OF ok mem cancel(2), of now "cancelled_by role" reason]
    show ?thesis by (simp add: cancel cancel_order_def)
  next
    case settle
    have "orders state' = set_status (ord_id ord) SETTLED (orders state)"
      by (simp add: settle settle_order_def)
    from resolved_after_status [OF f this v] have "ord' = ord\<lparr>ord_status := SETTLED\<rparr>" .
    with settle_order_projection [OF ok mem settle(2), of now]
    show ?thesis by (simp add: settle settle_order_def)
  next
    case prepare
    have "orders state' = set_status (ord_id ord) PREPARING (orders state)"
      by (simp add: prepare prepare_order_def)
    from resolved_after_status [OF f this v] have "ord' = ord\<lparr>ord_status := PREPARING\<rparr>" .
    with prepare_order_projection [OF ok mem prepare(2), of now]
    show ?thesis by (simp add: prepare prepare_order_def)
  next
    case ready
    have "orders state' = set_status (ord_id ord) READY (orders state)"
      by (simp add: ready ready_order_def)
    from resolved_after_status [OF f this v] have "ord' = ord\<lparr>ord_status := READY\<rparr>" .
    with ready_order_projection [OF ok mem ready(2), of now]
    show ?thesis by (simp add: ready ready_order_def)
  qed
qed

text \<open>
  Claim C5. Every operation preserves the consistency of status and satellite rows: on every
  store reached from one without orders by calls of \<^verbatim>\<open>create_order\<close> and
  \<^verbatim>\<open>update_order_status\<close>, whether they return or raise, and after one more such call,
  an order that is ORDERED has no satellite row and an order in any other status has exactly
  one satellite row of the kind of its status. Consequently the status projection never
  raises \<^verbatim>\<open>InternalServerError\<close> there, neither for an order of the table nor through
  \<^verbatim>\<open>get_order_status\<close>.
\<close>

theorem status_satellite_invariant:
  assumes "no_orders state0"
  shows "consistent (run state0 requests) \<and>
         (\<forall>request. consistent (handle (run state0 requests) request)) \<and>
         (\<forall>x \<in> set (orders (run state0 requests)). \<forall>msg.
            get_status_no_validation (run state0 requests) x \<noteq> Inl (InternalServerError msg)) \<and>
         (\<forall>user_id role order_id msg.
            get_order_status (run state0 requests) user_id role order_id \<noteq>
              Inl (InternalServerError msg))"
proof -
  let ?s = "run state0 requests"
  have ok: "store_ok ?s"
    using assms by (intro run_ok no_orders_ok)
  then have c: "consistent ?s" by (rule store_ok_consistent)
  have step: "consistent (handle ?s request)" for request
    using ok by (intro store_ok_consistent handle_ok)
  have proj: "get_status_no_validation ?s x \<noteq> Inl (InternalServerError msg)"
    if "x \<in> set (orders ?s)" for x msg
  proof -
    from c that have "status_consistent ?s x" by (simp add: consistent_def)
    from consistent_projection [OF this] show ?thesis by auto
  qed
  have status: "get_order_status ?s user_id role order_id \<noteq> Inl (InternalServerError msg)"
    for user_id role order_id msg
  proof (cases "get_order_with_validation ?s user_id role order_id")
    case (Inl e)
    with validation_error_kind [of ?s user_id role order_id msg] show ?thesis
      by (simp add: get_order_status_def)
  next
    case (Inr x)
    from get_order_with_validation_mem [OF Inr] have "x \<in> set (orders ?s)" by simp
    from proj [OF this] show ?thesis using Inr by (simp add: get_order_status_def)
  qed
  show ?thesis using c step proj status by blast
qed

text \<open>
  Claim C8. After a successful transition by \<^verbatim>\<open>update_order_status\<close>, on a store
  reached from one without orders, \<^verbatim>\<open>get_order_status\<close> called by any actor who is
  authorized for the order returns the status payload with the fields of the satellite row
  the transition has just appended: the kind of the update, the time of the call and, for a
  cancellation, who cancelled and the reason as given.
\<close>

theorem status_round_trip:
  assumes "no_orders state0" and "state = run state0 requests"
    and "update_order_status state user_id role order_id status now = (Inr (), state')"
    and "get_order_with_validation state' user_id' role' order_id = Inr ord'"
  shows "get_order_status state' user_id' role' order_id =
           Inr (written_status role status now) \<and>
         satellite_written state state' order_id role status now"
proof -
  have ok: "store_ok state"
    using assms(1,2) by (simp add: run_ok no_orders_ok)
  from assms(3) obtain ord where
    v: "get_order_with_validation state user_id role order_id = Inr ord" and
    tr: "transition state ord now role (ord_status ord) status = (Inr (), state')"
    by (cases "get_order_with_validation state user_id role order_id")
      (simp_all add: update_order_status_def)
  from get_order_with_validation_mem [OF v] have
    mem: "ord \<in> set (orders state)" and oid: "ord_id ord = order_id" and
    f: "find (\<lambda>x. ord_id x = ord_id ord) (orders state) = Some ord"
    by simp_all
  from transition_round_trip [OF ok mem f tr, of user_id' role' ord'] assms(4) oid
  show ?thesis
    by (simp add: get_order_status_def)
qed

theorem status_satellite_invariant_witness:
  "no_orders ex_state \<and>
   consistent (run ex_state
     [CreateOrderRequest 5 (ex_payload [ex_item 1 1 [1]]) 100,
      UpdateStatusRequest 7 MERCHANT 1 PreparingOrderUpdate 200,
      UpdateStatusRequest 7 MERCHANT 1 ReadyOrderUpdate 300,
      UpdateStatusRequest 7 MERCHANT 1 SettledOrderUpdate 400]) \<and>
   get_order_status (run ex_state
     [CreateOrderRequest 5 (ex_payload [ex_item 1 1 [1]]) 100,
      UpdateStatusRequest 7 MERCHANT 1 PreparingOrderUpdate 200,
      UpdateStatusRequest 7 MERCHANT 1 ReadyOrderUpdate 300,
      UpdateStatusRequest 7 MERCHANT 1 SettledOrderUpdate 400]) 5 CUSTOMER 1 =
     Inr (ReadyOrderSchema 300)"
proof -
  have h: "no_orders ex_state"
    by code_simp
  have v: "get_order_status (run ex_state
     [CreateOrderRequest 5 (ex_payload [ex_item 1 1 [1]]) 100,
      UpdateStatusRequest 7 MERCHANT 1 PreparingOrderUpdate 200,
      UpdateStatusRequest 7 MERCHANT 1 ReadyOrderUpdate 300,
      UpdateStatusRequest 7 MERCHANT 1 SettledOrderUpdate 400]) 5 CUSTOMER 1 =
     Inr (ReadyOrderSchema 300)"
    by code_simp
  show ?thesis
    using h v status_satellite_invariant [OF h,
      of "[CreateOrderRequest 5 (ex_payload [ex_item 1 1 [1]]) 100,
      UpdateStatusRequest 7 MERCHANT 1 PreparingOrderUpdate 200,
      UpdateStatusRequest 7 MERCHANT 1 ReadyOrderUpdate 300,
      UpdateStatusRequest 7 MERCHANT 1 SettledOrderUpdate 400]"]
    by blast
qed

theorem status_round_trip_witness:
  "no_orders ex_state \<and>
   ex_ordered = run ex_state [CreateOrderRequest 5 (ex_payload [ex_item 1 1 [1]]) 100] \<and>
   update_order_status ex_ordered 5 CUSTOMER 1 (CancelledOrderUpdate (Some ''late'')) 200 =
     (Inr (), ex_cancelled) \<and>
   get_order_with_validation ex_cancelled 7 MERCHANT 1 =
     Inr (ex_order\<lparr>ord_status := CANCELLED\<rparr>) \<and>
   get_order_status ex_cancelled 7 MERCHANT 1 =
     Inr (CancelledOrderSchema BY_CUSTOMER 200 (Some ''late''))"
proof -
  have h1: "no_orders ex_state"
    by code_simp
  have h2: "ex_ordered = run ex_state [CreateOrderRequest 5 (ex_payload [ex_item 1 1 [1]]) 100]"
    by (simp add: ex_ordered_def)
  have h3: "update_order_status ex_ordered 5 CUSTOMER 1
      (CancelledOrderUpdate (Some ''late'')) 200 = (Inr (), ex_cancelled)"
    by code_simp
  have h4: "get_order_with_validation ex_cancelled 7 MERCHANT 1 =
      Inr (ex_order\<lparr>ord_status := CANCELLED\<rparr>)"
    by code_simp
  show ?thesis
    using h1 h2 h3 h4 status_round_trip [OF h1 h2 h3 h4]
    by (simp add: cancelled_by_def)
qed

end
